theory Spec2Isabelle
  imports Main "HOL-Library.Char_ord" "HOL-Library.List_Lexorder"
begin

section \<open>The OpenAPI traffic auditor\<close>

text \<open>
  A shallow embedding of \<^verbatim>\<open>packages/api/src/api-test-helpers/audit/openapi-auditor.ts\<close>
  (class \<^verbatim>\<open>OpenApiAuditor\<close>). Strings are byte strings holding UTF-8 text: ASCII text
  has one character per byte (HTTP methods, request targets and OpenAPI path templates are
  such text, and the embedding of the matcher and of the case conversions is exact for it);
  the emoji of the report and of the console messages are written as their UTF-8 bytes.
\<close>

subsection \<open>Strings\<close>

text \<open>\<^verbatim>\<open>s.split(d)\<close> for a one-character separator: never empty, \<^verbatim>\<open>"".split(d) = [""]\<close>.\<close>

fun split_on :: "char \<Rightarrow> string \<Rightarrow> string list" where
  "split_on d [] = [ [] ]"
| "split_on d (c # cs) =
     (if c = d then [] # split_on d cs
      else (case split_on d cs of
              [] \<Rightarrow> [ [c] ]
            | s # ss \<Rightarrow> (c # s) # ss))"

text \<open>\<^verbatim>\<open>xs.join(sep)\<close>.\<close>

fun join :: "string \<Rightarrow> string list \<Rightarrow> string" where
  "join sep [] = []"
| "join sep [s] = s"
| "join sep (s # t # ss) = s @ sep @ join sep (t # ss)"

text \<open>\<^verbatim>\<open>url.split('?')[0]\<close>: the text before the first question mark.\<close>

definition strip_query :: "string \<Rightarrow> string" where
  "strip_query url = hd (split_on (CHR ''?'') url)"

subsection \<open>The regular expressions of the path matcher\<close>

text \<open>
  \<^verbatim>\<open>schemaPath.replace(/\{[^}]+\}/g, '[^/]+')\<close>: scanning from the left, an opening brace
  followed by at least one character other than a closing brace and then a closing brace is
  replaced by the five characters \<^verbatim>\<open>[^/]+\<close>; the scan resumes after the closing brace. An
  opening brace that starts no such group is kept.
\<close>

function replace_placeholders :: "string \<Rightarrow> string" where
  "replace_placeholders [] = []"
| "replace_placeholders (c # cs) =
     (if c = CHR ''{'' then
        (let body = takeWhile (\<lambda>d. d \<noteq> CHR ''}'') cs;
             rest = dropWhile (\<lambda>d. d \<noteq> CHR ''}'') cs
         in if body \<noteq> [] \<and> rest \<noteq> [] then ''[^/]+'' @ replace_placeholders (tl rest)
            else c # replace_placeholders cs)
      else c # replace_placeholders cs)"
  by pat_completeness auto
termination
proof (relation "measure length")
  show "wf (measure length)" by simp
next
  fix c :: char and cs body rest :: string
  assume "rest = dropWhile (\<lambda>d. d \<noteq> CHR ''}'') cs"
  then have "length (tl rest) \<le> length cs"
    using length_dropWhile_le [of "\<lambda>d. d \<noteq> CHR ''}''" cs] by simp
  then show "(tl rest, c # cs) \<in> measure length" by simp
qed simp_all

text \<open>
  The regular-expression engine belongs to the runtime, not to the auditor: the embedding
  of the auditor takes it as an argument (see \<open>regexp_engine\<close> below). What follows is
  the meaning of the patterns that path templates usually produce: ordinary characters, the
  dot, and the group \<^verbatim>\<open>[^/]+\<close> that the replacement above inserts. A pattern with any other
  syntax character (a quantifier, a class, a group, an alternation, an escape, an anchor, a
  brace) is outside this fragment, and \<open>parse_rx\<close> answers \<open>None\<close> for it.
\<close>

datatype rx = RLit char | RDot | RNotSlashPlus

definition regex_syntax_chars :: "char list" where
  "regex_syntax_chars = CHR 0x5C # ''^$.*+?()[]{}|''"

function parse_rx :: "string \<Rightarrow> rx list option" where
  "parse_rx [] = Some []"
| "parse_rx (c # cs) =
     (if c = CHR ''['' then
        (if take 4 cs = ''^/]+'' then map_option (Cons RNotSlashPlus) (parse_rx (drop 4 cs))
         else None)
      else if c = CHR ''.'' then map_option (Cons RDot) (parse_rx cs)
      else if c \<in> set regex_syntax_chars then None
      else map_option (Cons (RLit c)) (parse_rx cs))"
  by pat_completeness auto
termination
  by (relation "measure length") simp_all

text \<open>
  Without flags the dot matches any character except a line terminator; \<^verbatim>\<open>[^/]\<close> matches
  any character except the slash. \<open>rx_match r s\<close> is \<^verbatim>\<open>regex.test(s)\<close> for the pattern
  \<open>r\<close> between \<^verbatim>\<open>^\<close> and \<^verbatim>\<open>$\<close>: the whole of \<open>s\<close> must be consumed.
\<close>

definition line_terminator :: "char \<Rightarrow> bool" where
  "line_terminator c = (c = CHR 0x0A \<or> c = CHR 0x0D)"

fun rx_match :: "rx list \<Rightarrow> string \<Rightarrow> bool" where
  "rx_match [] [] = True"
| "rx_match [] (d # ds) = False"
| "rx_match (a # r) [] = False"
| "rx_match (RLit c # r) (d # ds) = (c = d \<and> rx_match r ds)"
| "rx_match (RDot # r) (d # ds) = (\<not> line_terminator d \<and> rx_match r ds)"
| "rx_match (RNotSlashPlus # r) (d # ds) =
     (d \<noteq> CHR ''/'' \<and> (rx_match r ds \<or> rx_match (RNotSlashPlus # r) ds))"

subsection \<open>The specification document\<close>

text \<open>
  The schema is what \<^verbatim>\<open>JSON.parse\<close> returns. An object is the list of its own entries in
  the order \<^verbatim>\<open>Object.keys\<close> enumerates them. Of a path item the code reads the keys and,
  for each key, the keys of \<^verbatim>\<open>pathObj[method]?.responses || {}\<close>: a member is an operation
  with a \<^verbatim>\<open>responses\<close> object, or anything else (the \<^verbatim>\<open>parameters\<close> array, a summary, an
  operation without responses), for which that expression is the empty object. A key of
  \<^verbatim>\<open>responses\<close> is a status code in decimal, or a word such as \<^verbatim>\<open>default\<close> or \<^verbatim>\<open>2XX\<close> on
  which \<^verbatim>\<open>Number\<close> is NaN.
\<close>

datatype status_key = Code nat | Word string

datatype member = Operation "status_key list" | Other

type_synonym path_item = "(string \<times> member) list"

type_synonym paths = "(string \<times> path_item) list"

record schema =
  schema_paths :: "paths option"

datatype error =
    RegexSyntaxError string
  | IoError string
  | Thrown string
  | JsonSyntaxError
  | NotIterable

text \<open>
  \<^verbatim>\<open>schemaPaths[cleanUrl]\<close> is truthy when the object has the key (a path item is an
  object, hence truthy) and also when the key names a member that every object inherits
  from \<^verbatim>\<open>Object.prototype\<close>.
\<close>

definition object_prototype_keys :: "string list" where
  "object_prototype_keys =
     [''constructor'', ''__defineGetter__'', ''__defineSetter__'', ''hasOwnProperty'',
      ''__lookupGetter__'', ''__lookupSetter__'', ''isPrototypeOf'', ''propertyIsEnumerable'',
      ''toString'', ''valueOf'', ''__proto__'', ''toLocaleString'']"

definition truthy_property :: "paths \<Rightarrow> string \<Rightarrow> bool" where
  "truthy_property ps k = (k \<in> set (map fst ps) \<or> k \<in> set object_prototype_keys)"

subsection \<open>The regular-expression engine of the runtime\<close>

text \<open>
  \<open>re source input\<close> stands for \<^verbatim>\<open>new RegExp(source).test(input)\<close>: the constructor
  throws \<^verbatim>\<open>SyntaxError\<close> for a source that is no pattern, otherwise the test answers. The
  engine is an argument of everything that matches paths, so the embedding of the auditor
  says nothing of its own about regular expressions.
\<close>

type_synonym regexp_engine = "string \<Rightarrow> string \<Rightarrow> error + bool"

text \<open>
  An engine that is right on the fragment above: for a source \<^verbatim>\<open>^p$\<close> with \<open>p\<close> in the
  fragment it answers by \<open>rx_match\<close>; every other source is left to \<open>other\<close>. Every
  engine that agrees with the runtime on the fragment has this form.
\<close>

definition fragment_regexp :: "regexp_engine \<Rightarrow> regexp_engine" where
  "fragment_regexp other source input =
     (case source of
        [] \<Rightarrow> other source input
      | c # rest \<Rightarrow>
          if c = CHR ''^'' \<and> rest \<noteq> [] \<and> last rest = CHR ''$'' then
            (case parse_rx (butlast rest) of
               Some r \<Rightarrow> Inr (rx_match r input)
             | None \<Rightarrow> other source input)
          else other source input)"

subsection \<open>normalizePathForSchema\<close>

text \<open>
  The loop over \<^verbatim>\<open>Object.keys(schemaPaths)\<close>: the pattern is built from the template, the
  constructor may throw, the first template whose expression accepts the path is returned.
\<close>

fun match_templates ::
  "regexp_engine \<Rightarrow> string \<Rightarrow> string list \<Rightarrow> error + string option" where
  "match_templates re cleanUrl [] = Inr None"
| "match_templates re cleanUrl (schemaPath # rest) =
     (case re (''^'' @ replace_placeholders schemaPath @ ''$'') cleanUrl of
        Inl e \<Rightarrow> Inl e
      | Inr accepted \<Rightarrow>
          if accepted then Inr (Some schemaPath)
          else match_templates re cleanUrl rest)"

definition normalizePathForSchema ::
  "regexp_engine \<Rightarrow> string \<Rightarrow> paths \<Rightarrow> error + string option" where
  "normalizePathForSchema re url schemaPaths =
     (let cleanUrl = strip_query url
      in if truthy_property schemaPaths cleanUrl then Inr (Some cleanUrl)
         else match_templates re cleanUrl (map fst schemaPaths))"

subsection \<open>Text of numbers, case conversion, sorting\<close>

text \<open>A nonnegative integer in a template literal: its decimal digits.\<close>

definition digit :: "nat \<Rightarrow> char" where
  "digit d = ''0123456789'' ! d"

function show_nat :: "nat \<Rightarrow> string" where
  "show_nat n = (if n < 10 then [digit n] else show_nat (n div 10) @ [digit (n mod 10)])"
  by pat_completeness auto
termination
  by (relation "measure id") simp_all

declare show_nat.simps [simp del]

definition upper_letters :: string where
  "upper_letters = ''ABCDEFGHIJKLMNOPQRSTUVWXYZ''"

definition lower_letters :: string where
  "lower_letters = ''abcdefghijklmnopqrstuvwxyz''"

definition toLowerCase :: "string \<Rightarrow> string" where
  "toLowerCase s =
     map (\<lambda>c. case map_of (zip upper_letters lower_letters) c of Some d \<Rightarrow> d | None \<Rightarrow> c) s"

definition toUpperCase :: "string \<Rightarrow> string" where
  "toUpperCase s =
     map (\<lambda>c. case map_of (zip lower_letters upper_letters) c of Some d \<Rightarrow> d | None \<Rightarrow> c) s"

text \<open>
  \<^verbatim>\<open>Array.from(statusCodes).sort()\<close>: with no comparator the numbers are ordered by their
  decimal text, character by character (so 1000 comes before 200); the sort is stable.
\<close>

definition js_sort :: "nat list \<Rightarrow> nat list" where
  "js_sort xs = sort_key show_nat xs"

text \<open>\<^verbatim>\<open>Number(key)\<close> of a \<^verbatim>\<open>responses\<close> key; \<open>None\<close> is NaN.\<close>

fun to_number :: "status_key \<Rightarrow> nat option" where
  "to_number (Code n) = Some n"
| "to_number (Word w) = None"

fun key_text :: "status_key \<Rightarrow> string" where
  "key_text (Code n) = show_nat n"
| "key_text (Word w) = w"

fun number_text :: "nat option \<Rightarrow> string" where
  "number_text (Some n) = show_nat n"
| "number_text None = ''NaN''"

text \<open>
  Numbers are IEEE doubles. The counts of the report are integers below \<open>2^53\<close> and are
  exact. A quotient or a product of two doubles is the exact result rounded to the nearest
  double, ties to the even significand; for the counts of a report it lies in the normal
  range. A double that is not negative is written here as a fraction of two naturals.
  \<open>round_double n d\<close> is the double nearest to \<open>n / d\<close>: the binary exponent \<open>e\<close> of the
  quotient is found, the quotient is scaled to a significand of 53 bits and rounded, and the
  scaling is undone.
\<close>

function bit_length :: "nat \<Rightarrow> nat" where
  "bit_length n = (if n = 0 then 0 else Suc (bit_length (n div 2)))"
  by pat_completeness auto
termination
  by (relation "measure id") simp_all

declare bit_length.simps [simp del]

definition round_half_even :: "nat \<Rightarrow> nat \<Rightarrow> nat" where
  "round_half_even n d =
     (let q = n div d; r = n mod d
      in if 2 * r < d then q
         else if d < 2 * r then Suc q
         else if even q then q else Suc q)"

text \<open>The integer \<open>e\<close> with \<open>2^e \<le> n / d < 2^(e+1)\<close>, for positive \<open>n\<close> and \<open>d\<close>.\<close>

definition floor_log2 :: "nat \<Rightarrow> nat \<Rightarrow> int" where
  "floor_log2 n d =
     (let e0 = int (bit_length n) - int (bit_length d)
      in if (if 0 \<le> e0 then d * 2 ^ nat e0 \<le> n else d \<le> n * 2 ^ nat (- e0))
         then e0 else e0 - 1)"

definition round_double :: "nat \<Rightarrow> nat \<Rightarrow> nat \<times> nat" where
  "round_double n d =
     (if n = 0 then (0, 1)
      else
        (let s = 52 - floor_log2 n d
         in if 0 \<le> s then (round_half_even (n * 2 ^ nat s) d, 2 ^ nat s)
            else (round_half_even n (d * 2 ^ nat (- s)) * 2 ^ nat (- s), 1)))"

text \<open>
  \<^verbatim>\<open>Math.round(x)\<close> for \<open>x\<close> that is not negative: the integer nearest to \<open>x\<close>, the
  larger one at a tie.
\<close>

definition math_round :: "nat \<times> nat \<Rightarrow> nat" where
  "math_round x = (2 * fst x + snd x) div (2 * snd x)"

text \<open>
  \<^verbatim>\<open>Math.round((tested / whole) * 100)\<close> in a template literal. A zero denominator divides
  by zero: \<^verbatim>\<open>0 / 0\<close> is NaN and \<^verbatim>\<open>n / 0\<close> is Infinity for positive \<open>n\<close>; the product and
  \<^verbatim>\<open>Math.round\<close> keep both. Otherwise the quotient is rounded to a double, its product
  with 100 is rounded to a double, and the result is rounded to an integer: the percentage
  of 23 in 40 is 57, because the product is a double just below 57.5.
\<close>

definition percent :: "nat \<Rightarrow> nat \<Rightarrow> string" where
  "percent tested whole =
     (if whole = 0 then (if tested = 0 then ''NaN'' else ''Infinity'')
      else show_nat (math_round
             (case round_double tested whole of (n, d) \<Rightarrow> round_double (100 * n) d)))"

subsection \<open>Traffic records\<close>

text \<open>
  The payloads are of type \<^verbatim>\<open>unknown\<close>: \<open>'v\<close> is the type of parsed JSON values and of
  payloads that are not strings; a payload that is a string is \<open>Raw\<close>.
\<close>

datatype 'v payload = Raw string | Value 'v

record 'v traffic_record =
  "method" :: string
  url :: string
  status :: nat
  request :: "'v option"
  response :: "'v payload"

subsection \<open>Sets and maps of JavaScript, in insertion order\<close>

definition set_add :: "'a \<Rightarrow> 'a list \<Rightarrow> 'a list" where
  "set_add x xs = (if x \<in> set xs then xs else xs @ [x])"

fun map_set :: "'k \<Rightarrow> 'a \<Rightarrow> ('k \<times> 'a) list \<Rightarrow> ('k \<times> 'a) list" where
  "map_set k v [] = [(k, v)]"
| "map_set k v ((k', v') # m) = (if k = k' then (k, v) # m else (k', v') # map_set k v m)"

definition map_has :: "('k \<times> 'a) list \<Rightarrow> 'k \<Rightarrow> bool" where
  "map_has m k = (map_of m k \<noteq> None)"

subsection \<open>generateReport: the analysis of the traffic\<close>

record analysis =
  testedPaths :: "string list"
  testedMethodsWithStatus :: "(string \<times> (string \<times> nat list) list) list"
  undocumentedEndpoints :: "(string \<times> nat list) list"

definition empty_analysis :: analysis where
  "empty_analysis =
     \<lparr>testedPaths = [], testedMethodsWithStatus = [], undocumentedEndpoints = []\<rparr>"

text \<open>
  The body of \<^verbatim>\<open>for (const record of traffic)\<close>. The result of the matcher is tested for
  truthiness: the empty string counts as no match. The two \<^verbatim>\<open>throw\<close> statements are kept.
\<close>

definition analyze_record ::
  "regexp_engine \<Rightarrow> paths \<Rightarrow> 'v traffic_record \<Rightarrow> analysis \<Rightarrow> error + analysis" where
  "analyze_record re ps record a =
     (case normalizePathForSchema re (url record) ps of
        Inl e \<Rightarrow> Inl e
      | Inr normalizedPath \<Rightarrow>
          (if normalizedPath \<noteq> None \<and> normalizedPath \<noteq> Some [] then
             (let p = the normalizedPath;
                  tp = set_add p (testedPaths a);
                  tm = (if \<not> map_has (testedMethodsWithStatus a) p
                        then map_set p [] (testedMethodsWithStatus a)
                        else testedMethodsWithStatus a)
              in case map_of tm p of
                   None \<Rightarrow> Inl (Thrown (''No method map found for path: '' @ p))
                 | Some methodMap \<Rightarrow>
                     (let m = toLowerCase (method record);
                          mm = (if \<not> map_has methodMap m then map_set m [] methodMap
                                else methodMap);
                          mm' = (case map_of mm m of
                                   None \<Rightarrow> mm
                                 | Some statuses \<Rightarrow>
                                     map_set m (set_add (status record) statuses) mm)
                      in Inr (a\<lparr>testedPaths := tp,
                                testedMethodsWithStatus := map_set p mm' tm\<rparr>)))
           else
             (let pathKey = toUpperCase (method record) @ '' '' @ url record;
                  ue = (if \<not> map_has (undocumentedEndpoints a) pathKey
                        then map_set pathKey [] (undocumentedEndpoints a)
                        else undocumentedEndpoints a)
              in case map_of ue pathKey of
                   None \<Rightarrow> Inl (Thrown (''No statuses found for path: '' @ pathKey))
                 | Some statuses \<Rightarrow>
                     Inr (a\<lparr>undocumentedEndpoints :=
                               map_set pathKey (set_add (status record) statuses) ue\<rparr>))))"

fun analyze ::
  "regexp_engine \<Rightarrow> paths \<Rightarrow> 'v traffic_record list \<Rightarrow> analysis \<Rightarrow> error + analysis" where
  "analyze re ps [] a = Inr a"
| "analyze re ps (record # traffic) a =
     (case analyze_record re ps record a of
        Inl e \<Rightarrow> Inl e
      | Inr a' \<Rightarrow> analyze re ps traffic a')"

subsection \<open>generateReport: the totals\<close>

text \<open>\<^verbatim>\<open>Object.keys(pathObj).filter((key) => key !== 'parameters')\<close>.\<close>

definition methods_of :: "path_item \<Rightarrow> string list" where
  "methods_of pathObj = filter (\<lambda>key. key \<noteq> ''parameters'') (map fst pathObj)"

text \<open>\<^verbatim>\<open>Object.keys(pathObj[method]?.responses || {})\<close>.\<close>

definition response_keys :: "path_item \<Rightarrow> string \<Rightarrow> status_key list" where
  "response_keys pathObj m =
     (case map_of pathObj m of Some (Operation keys) \<Rightarrow> keys | _ \<Rightarrow> [])"

text \<open>\<^verbatim>\<open>testedMethodsWithStatus.get(pathKey)?.get(method) || new Set()\<close>.\<close>

definition tested_statuses ::
  "(string \<times> (string \<times> nat list) list) list \<Rightarrow> string \<Rightarrow> string \<Rightarrow> nat list" where
  "tested_statuses tm pathKey m =
     (case map_of tm pathKey of
        None \<Rightarrow> []
      | Some methodMap \<Rightarrow> (case map_of methodMap m of None \<Rightarrow> [] | Some s \<Rightarrow> s))"

text \<open>\<^verbatim>\<open>testedStatuses.has(n)\<close> for a number that may be NaN; no status of a record is NaN.\<close>

fun set_has :: "nat list \<Rightarrow> nat option \<Rightarrow> bool" where
  "set_has s (Some n) = (n \<in> set s)"
| "set_has s None = False"

definition totalMethodStatusCombos :: "paths \<Rightarrow> nat" where
  "totalMethodStatusCombos ps =
     sum_list (map (\<lambda>(pathKey, pathObj).
        sum_list (map (\<lambda>m. length (response_keys pathObj m)) (methods_of pathObj))) ps)"

definition testedMethodStatusCombos ::
  "paths \<Rightarrow> (string \<times> (string \<times> nat list) list) list \<Rightarrow> nat" where
  "testedMethodStatusCombos ps tm =
     sum_list (map (\<lambda>(pathKey, pathObj).
        sum_list (map (\<lambda>m.
           length (filter (\<lambda>key. set_has (tested_statuses tm pathKey m) (to_number key))
                     (response_keys pathObj m)))
         (methods_of pathObj))) ps)"

subsection \<open>generateReport: the document\<close>

text \<open>
  The report is built by appending pieces to a string. The embedding keeps the list of the
  pieces, one for each \<^verbatim>\<open>report += \<dots>\<close> that is executed, and the report is their
  concatenation. \<^verbatim>\<open>new Date().toISOString()\<close> is the argument \<open>now\<close>.
\<close>

definition nl :: string where
  "nl = [CHR 0x0A]"

definition emoji_siren :: string where
  "emoji_siren = [CHR 0xF0, CHR 0x9F, CHR 0x9A, CHR 0xA8]"

definition emoji_check :: string where
  "emoji_check = [CHR 0xE2, CHR 0x9C, CHR 0x85]"

definition emoji_cross :: string where
  "emoji_cross = [CHR 0xE2, CHR 0x9D, CHR 0x8C]"

definition title_heading :: string where
  "title_heading = ''# OpenAPI Traffic Audit Report'' @ nl @ nl"

definition summary_heading :: string where
  "summary_heading = ''## Coverage Summary'' @ nl @ nl"

definition undocumented_heading :: string where
  "undocumented_heading = ''## '' @ emoji_siren @ '' Undocumented Endpoints'' @ nl @ nl"

definition tested_heading :: string where
  "tested_heading = ''## '' @ emoji_check @ '' Tested Endpoints'' @ nl @ nl"

definition missing_heading :: string where
  "missing_heading = ''## '' @ emoji_cross @ '' Missing Coverage'' @ nl @ nl"

definition summary_chunks ::
  "paths \<Rightarrow> analysis \<Rightarrow> nat \<Rightarrow> string \<Rightarrow> string list" where
  "summary_chunks ps a trafficLength now =
     (let totalPaths = length ps;
          totalCombos = totalMethodStatusCombos ps;
          testedCombos = testedMethodStatusCombos ps (testedMethodsWithStatus a)
      in [title_heading,
          ''**Generated:** '' @ now @ nl @ nl,
          summary_heading,
          ''- **Paths Tested:** '' @ show_nat (length (testedPaths a)) @ ''/''
            @ show_nat totalPaths @ '' ('' @ percent (length (testedPaths a)) totalPaths
            @ ''%)'' @ nl,
          ''- **Method/Status Combinations Tested:** '' @ show_nat testedCombos @ ''/''
            @ show_nat totalCombos @ '' ('' @ percent testedCombos totalCombos @ ''%)'' @ nl,
          ''- **Total Requests:** '' @ show_nat trafficLength @ nl]
         @ (if length (undocumentedEndpoints a) > 0
            then [''- **Undocumented Endpoints Found:** ''
                    @ show_nat (length (undocumentedEndpoints a)) @ nl]
            else [])
         @ [nl])"

definition undocumented_chunks :: "(string \<times> nat list) list \<Rightarrow> string list" where
  "undocumented_chunks ue =
     (if length ue > 0 then
        [undocumented_heading,
         ''*These endpoints were found in traffic but are not documented in the OpenAPI schema:*''
           @ nl @ nl]
        @ concat (map (\<lambda>(pathKey, statusCodes).
            [''### `'' @ pathKey @ ''`'' @ nl,
             ''- Status codes: '' @ join '', '' (map show_nat (js_sort statusCodes)) @ nl @ nl])
          ue)
      else [])"

definition tested_chunks :: "(string \<times> (string \<times> nat list) list) list \<Rightarrow> string list" where
  "tested_chunks tm =
     [tested_heading]
     @ concat (map (\<lambda>(path, methodMap).
         [''### `'' @ path @ ''`'' @ nl]
         @ map (\<lambda>(m, statusCodes).
             ''- **'' @ toUpperCase m @ ''**: ''
               @ join '', '' (map show_nat (js_sort statusCodes)) @ nl)
           methodMap
         @ [nl])
       tm)"

text \<open>\<^verbatim>\<open>Object.keys(paths).filter((path) => !testedPaths.has(path))\<close>.\<close>

definition untestedPaths :: "paths \<Rightarrow> analysis \<Rightarrow> string list" where
  "untestedPaths ps a = filter (\<lambda>path. path \<notin> set (testedPaths a)) (map fst ps)"

text \<open>The loop that sets \<^verbatim>\<open>hasUntestedCombos\<close> and stops at the first method that has one.\<close>

definition hasUntestedCombos ::
  "(string \<times> (string \<times> nat list) list) list \<Rightarrow> string \<Rightarrow> path_item \<Rightarrow> bool" where
  "hasUntestedCombos tm pathKey pathObj =
     list_ex (\<lambda>m.
        list_ex (\<lambda>st. \<not> set_has (tested_statuses tm pathKey m) st)
          (map to_number (response_keys pathObj m)))
       (methods_of pathObj)"

definition partiallyTestedPaths :: "paths \<Rightarrow> analysis \<Rightarrow> string list" where
  "partiallyTestedPaths ps a =
     map fst (filter (\<lambda>(pathKey, pathObj).
        pathKey \<in> set (testedPaths a)
        \<and> hasUntestedCombos (testedMethodsWithStatus a) pathKey pathObj) ps)"

text \<open>\<^verbatim>\<open>paths[path]\<close> for a key that \<^verbatim>\<open>Object.keys(paths)\<close> returned.\<close>

definition path_item_of :: "paths \<Rightarrow> string \<Rightarrow> path_item" where
  "path_item_of ps path = (case map_of ps path of Some pathObj \<Rightarrow> pathObj | None \<Rightarrow> [])"

definition untested_chunks :: "paths \<Rightarrow> string list \<Rightarrow> string list" where
  "untested_chunks ps untested =
     (if length untested > 0 then
        [''### Completely Untested Endpoints'' @ nl @ nl]
        @ concat (map (\<lambda>path.
            [''#### `'' @ path @ ''`'' @ nl]
            @ map (\<lambda>m.
                ''- **'' @ toUpperCase m @ ''**: ''
                  @ join '', '' (map key_text (response_keys (path_item_of ps path) m)) @ nl)
              (methods_of (path_item_of ps path))
            @ [nl])
          untested)
      else [])"

definition partial_chunks ::
  "paths \<Rightarrow> (string \<times> (string \<times> nat list) list) list \<Rightarrow> string list \<Rightarrow> string list" where
  "partial_chunks ps tm partially =
     (if length partially > 0 then
        [''### Missing Status Code Coverage'' @ nl @ nl]
        @ concat (map (\<lambda>path.
            [''#### `'' @ path @ ''`'' @ nl]
            @ concat (map (\<lambda>m.
                (let expectedStatuses = map to_number (response_keys (path_item_of ps path) m);
                     missingStatuses =
                       filter (\<lambda>st. \<not> set_has (tested_statuses tm path m) st) expectedStatuses
                 in if length missingStatuses > 0
                    then [''- **'' @ toUpperCase m @ ''**: Missing ''
                            @ join '', '' (map number_text missingStatuses) @ nl]
                    else []))
              (methods_of (path_item_of ps path)))
            @ [nl])
          partially)
      else [])"

definition missing_chunks :: "paths \<Rightarrow> analysis \<Rightarrow> string list" where
  "missing_chunks ps a =
     (let untested = untestedPaths ps a;
          partially = partiallyTestedPaths ps a
      in if length untested > 0 \<or> length partially > 0 then
           [missing_heading]
           @ untested_chunks ps untested
           @ partial_chunks ps (testedMethodsWithStatus a) partially
         else [])"

text \<open>\<^verbatim>\<open>schema.paths || {}\<close>: an object is truthy, so only a missing member gives \<^verbatim>\<open>{}\<close>.\<close>

definition paths_of :: "schema \<Rightarrow> paths" where
  "paths_of sch = (case schema_paths sch of Some ps \<Rightarrow> ps | None \<Rightarrow> [])"

definition generateReport_chunks ::
  "regexp_engine \<Rightarrow> schema \<Rightarrow> 'v traffic_record list \<Rightarrow> string \<Rightarrow> error + string list" where
  "generateReport_chunks re sch traffic now =
     (let ps = paths_of sch
      in case analyze re ps traffic empty_analysis of
           Inl e \<Rightarrow> Inl e
         | Inr a \<Rightarrow>
             Inr (summary_chunks ps a (length traffic) now
                  @ undocumented_chunks (undocumentedEndpoints a)
                  @ tested_chunks (testedMethodsWithStatus a)
                  @ missing_chunks ps a))"

definition generateReport ::
  "regexp_engine \<Rightarrow> schema \<Rightarrow> 'v traffic_record list \<Rightarrow> string \<Rightarrow> error + string" where
  "generateReport re sch traffic now =
     (case generateReport_chunks re sch traffic now of
        Inl e \<Rightarrow> Inl e
      | Inr chunks \<Rightarrow> Inr (concat chunks))"

subsection \<open>Files and the file-access port\<close>

text \<open>
  A JSON file is represented by the value it denotes: \<^verbatim>\<open>JSON.stringify\<close> builds the
  document and \<^verbatim>\<open>JSON.parse\<close> reads it back. \<open>PlainText\<close> is text that is not JSON (the
  Markdown report, a damaged file), on which \<^verbatim>\<open>JSON.parse\<close> raises \<^verbatim>\<open>SyntaxError\<close>.
\<close>

datatype 'v doc =
    TrafficJson "'v traffic_record list"
  | SchemaJson schema
  | PlainText string

text \<open>\<^verbatim>\<open>JSON.parse(schemaContent)\<close>; an array has no member \<^verbatim>\<open>paths\<close>.\<close>

fun parse_schema :: "'v doc \<Rightarrow> error + schema" where
  "parse_schema (SchemaJson sch) = Inr sch"
| "parse_schema (TrafficJson rs) = Inr \<lparr>schema_paths = None\<rparr>"
| "parse_schema (PlainText t) = Inl JsonSyntaxError"

text \<open>
  \<^verbatim>\<open>JSON.parse(content) as TrafficRecord[]\<close> followed by \<^verbatim>\<open>allTraffic.push(...traffic)\<close>;
  spreading an object that is not an array raises \<^verbatim>\<open>TypeError\<close>.
\<close>

fun parse_traffic :: "'v doc \<Rightarrow> error + 'v traffic_record list" where
  "parse_traffic (TrafficJson rs) = Inr rs"
| "parse_traffic (SchemaJson sch) = Inl NotIterable"
| "parse_traffic (PlainText t) = Inl JsonSyntaxError"

text \<open>
  \<^verbatim>\<open>FileOperations\<close>: the operations are supplied by the caller. Each one runs on the
  state \<open>'fs\<close> of the storage, returns or throws, and leaves a storage state. Whether an
  operation answers directly or through a promise makes no difference to the awaiting
  caller. \<^verbatim>\<open>mkdir\<close> is always called with \<^verbatim>\<open>{ recursive: true }\<close>.
\<close>

record ('fs, 'v) file_ops =
  readFile :: "string \<Rightarrow> 'fs \<Rightarrow> (error + 'v doc) \<times> 'fs"
  writeFile :: "string \<Rightarrow> 'v doc \<Rightarrow> 'fs \<Rightarrow> (error + unit) \<times> 'fs"
  mkdir :: "string \<Rightarrow> 'fs \<Rightarrow> (error + unit) \<times> 'fs"
  glob :: "string \<Rightarrow> 'fs \<Rightarrow> (error + string list) \<times> 'fs"
  removeFile :: "(string \<Rightarrow> 'fs \<Rightarrow> (error + unit) \<times> 'fs) option"

record ('fs, 'v) auditor_options =
  schemaPath :: string
  trafficDir :: string
  reportPath :: string
  fileOps :: "('fs, 'v) file_ops"

subsection \<open>The state of the auditor and of its surroundings\<close>

text \<open>
  Arrays and the objects held in \<^verbatim>\<open>request.__traffic\<close> are mutable and shared, so they
  live in a store: an array is an address whose content is a list of object addresses.
  A holder object is a draft (method, url, request) until \<^verbatim>\<open>onSend\<close> sets its status and
  response; from then on it is a complete traffic record.
\<close>

type_synonym addr = nat

datatype 'v holder =
    Draft string string "'v option"
  | Complete "'v traffic_record"

datatype console_line =
    Log string
  | ErrorLine string error

record ('fs, 'v) world =
  objs :: "addr \<Rightarrow> 'v holder option"
  arrs :: "addr \<Rightarrow> addr list option"
  fresh :: addr
  traffic_ref :: addr
  req_traffic :: "nat \<Rightarrow> addr option"
  storage :: 'fs
  console :: "console_line list"

text \<open>The content of an array, and the records that \<^verbatim>\<open>JSON.stringify\<close> sees in it.\<close>

definition array_at :: "('fs, 'v) world \<Rightarrow> addr \<Rightarrow> addr list" where
  "array_at w a = (case arrs w a of Some xs \<Rightarrow> xs | None \<Rightarrow> [])"

definition records_at :: "('fs, 'v) world \<Rightarrow> addr \<Rightarrow> 'v traffic_record list" where
  "records_at w a =
     List.map_filter (\<lambda>x. case objs w x of Some (Complete r) \<Rightarrow> Some r | _ \<Rightarrow> None)
       (array_at w a)"

text \<open>\<^verbatim>\<open>this.traffic\<close>: its elements and their records.\<close>

definition traffic_log :: "('fs, 'v) world \<Rightarrow> addr list" where
  "traffic_log w = array_at w (traffic_ref w)"

definition traffic_records :: "('fs, 'v) world \<Rightarrow> 'v traffic_record list" where
  "traffic_records w = records_at w (traffic_ref w)"

text \<open>A new array \<^verbatim>\<open>[\<dots>]\<close> with the given elements; its address is returned.\<close>

definition new_array :: "addr list \<Rightarrow> ('fs, 'v) world \<Rightarrow> addr \<times> ('fs, 'v) world" where
  "new_array xs w = (fresh w, w\<lparr>arrs := (arrs w)(fresh w \<mapsto> xs), fresh := Suc (fresh w)\<rparr>)"

text \<open>\<^verbatim>\<open>new OpenApiAuditor(options)\<close>: the field \<^verbatim>\<open>traffic\<close> starts as a new empty array.\<close>

definition new_auditor :: "'fs \<Rightarrow> ('fs, 'v) world" where
  "new_auditor st =
     \<lparr>objs = (\<lambda>a. None), arrs = [0 \<mapsto> []], fresh = 1, traffic_ref = 0,
      req_traffic = (\<lambda>r. None), storage = st, console = []\<rparr>"

subsection \<open>Statements that may throw\<close>

text \<open>
  A method runs on the world and returns a value or throws; the world it leaves is
  returned in both cases.
\<close>

type_synonym ('w, 'a) prog = "'w \<Rightarrow> (error + 'a) \<times> 'w"

definition return_io :: "'a \<Rightarrow> ('w, 'a) prog" where
  "return_io x w = (Inr x, w)"

definition bind_io :: "('w, 'a) prog \<Rightarrow> ('a \<Rightarrow> ('w, 'b) prog) \<Rightarrow> ('w, 'b) prog" where
  "bind_io m f w = (case m w of (Inl e, w') \<Rightarrow> (Inl e, w') | (Inr x, w') \<Rightarrow> f x w')"

definition try_catch :: "('w, 'a) prog \<Rightarrow> (error \<Rightarrow> ('w, 'a) prog) \<Rightarrow> ('w, 'a) prog" where
  "try_catch m handler w = (case m w of (Inl e, w') \<Rightarrow> handler e w' | (Inr x, w') \<Rightarrow> (Inr x, w'))"

definition lift_result :: "error + 'a \<Rightarrow> ('w, 'a) prog" where
  "lift_result r w = (r, w)"

definition on_storage ::
  "('fs \<Rightarrow> (error + 'a) \<times> 'fs) \<Rightarrow> (('fs, 'v) world, 'a) prog" where
  "on_storage operation w =
     (case operation (storage w) of (r, st') \<Rightarrow> (r, w\<lparr>storage := st'\<rparr>))"

definition console_log :: "string \<Rightarrow> (('fs, 'v) world, unit) prog" where
  "console_log msg w = (Inr (), w\<lparr>console := console w @ [Log msg]\<rparr>)"

definition console_error :: "string \<Rightarrow> error \<Rightarrow> (('fs, 'v) world, unit) prog" where
  "console_error msg e w = (Inr (), w\<lparr>console := console w @ [ErrorLine msg e]\<rparr>)"

subsection \<open>The recorder: registerPlugin and its three hooks\<close>

text \<open>
  \<^verbatim>\<open>registerPlugin\<close> replaces \<^verbatim>\<open>this.traffic\<close> by a new empty array and installs the hooks.
  (The decoration of the service instance with that array is not embedded: nothing below
  reads it.) The service calls the hooks; \<open>r\<close> identifies the request object.
\<close>

definition registerPlugin :: "('fs, 'v) world \<Rightarrow> ('fs, 'v) world" where
  "registerPlugin w = (case new_array [] w of (a, w') \<Rightarrow> w'\<lparr>traffic_ref := a\<rparr>)"

text \<open>\<^verbatim>\<open>onRequest\<close>: a new holder object is attached to the request.\<close>

definition on_request :: "nat \<Rightarrow> string \<Rightarrow> string \<Rightarrow> ('fs, 'v) world \<Rightarrow> ('fs, 'v) world" where
  "on_request r m u w =
     w\<lparr>objs := (objs w)(fresh w \<mapsto> Draft m u None),
       fresh := Suc (fresh w),
       req_traffic := (req_traffic w)(r \<mapsto> fresh w)\<rparr>"

fun set_request :: "'v option \<Rightarrow> 'v holder \<Rightarrow> 'v holder" where
  "set_request body (Draft m u rq) = Draft m u body"
| "set_request body (Complete rc) = Complete (rc\<lparr>request := body\<rparr>)"

text \<open>\<^verbatim>\<open>preHandler\<close>: \<^verbatim>\<open>if (request.__traffic) request.__traffic.request = request.body\<close>.\<close>

definition pre_handler :: "nat \<Rightarrow> 'v option \<Rightarrow> ('fs, 'v) world \<Rightarrow> ('fs, 'v) world" where
  "pre_handler r body w =
     (case req_traffic w r of
        None \<Rightarrow> w
      | Some a \<Rightarrow> w\<lparr>objs := (objs w)(a := map_option (set_request body) (objs w a))\<rparr>)"

text \<open>
  \<^verbatim>\<open>parseResponsePayload\<close>: a string payload is replaced by its parsed value when
  \<^verbatim>\<open>JSON.parse\<close> accepts it; \<open>json_parse\<close> is \<^verbatim>\<open>JSON.parse\<close>, with \<open>None\<close> for a throw.
\<close>

definition parseResponsePayload :: "(string \<Rightarrow> 'v option) \<Rightarrow> 'v payload \<Rightarrow> 'v payload" where
  "parseResponsePayload json_parse p =
     (case p of
        Raw t \<Rightarrow> (case json_parse t of Some v \<Rightarrow> Value v | None \<Rightarrow> Raw t)
      | Value v \<Rightarrow> Value v)"

fun set_response :: "nat \<Rightarrow> 'v payload \<Rightarrow> 'v holder \<Rightarrow> 'v holder" where
  "set_response code resp (Draft m u rq) =
     Complete \<lparr>method = m, url = u, status = code, request = rq, response = resp\<rparr>"
| "set_response code resp (Complete rc) = Complete (rc\<lparr>status := code, response := resp\<rparr>)"

text \<open>
  \<^verbatim>\<open>onSend\<close>: without a holder nothing happens; otherwise status and response are
  written into the holder and the holder is pushed onto \<^verbatim>\<open>this.traffic\<close>.
\<close>

definition on_send ::
  "(string \<Rightarrow> 'v option) \<Rightarrow> nat \<Rightarrow> nat \<Rightarrow> 'v payload \<Rightarrow> ('fs, 'v) world \<Rightarrow> ('fs, 'v) world" where
  "on_send json_parse r statusCode p w =
     (case req_traffic w r of
        None \<Rightarrow> w
      | Some a \<Rightarrow>
          w\<lparr>objs := (objs w)(a := map_option
                       (set_response statusCode (parseResponsePayload json_parse p)) (objs w a)),
            arrs := (arrs w)(traffic_ref w \<mapsto> traffic_log w @ [a])\<rparr>)"

datatype 'v event =
    OnRequest nat string string
  | PreHandler nat "'v option"
  | OnSend nat nat "'v payload"

fun hook :: "(string \<Rightarrow> 'v option) \<Rightarrow> 'v event \<Rightarrow> ('fs, 'v) world \<Rightarrow> ('fs, 'v) world" where
  "hook json_parse (OnRequest r m u) w = on_request r m u w"
| "hook json_parse (PreHandler r body) w = pre_handler r body w"
| "hook json_parse (OnSend r code p) w = on_send json_parse r code p w"

fun run_hooks ::
  "(string \<Rightarrow> 'v option) \<Rightarrow> 'v event list \<Rightarrow> ('fs, 'v) world \<Rightarrow> ('fs, 'v) world" where
  "run_hooks json_parse [] w = w"
| "run_hooks json_parse (ev # evs) w = run_hooks json_parse evs (hook json_parse ev w)"

text \<open>
  An exchange that the service finalizes once: request \<open>r\<close> arrives with method and url,
  its body is parsed, and one response is sent.
\<close>

datatype 'v exchange = Exchange nat string string "'v option" nat "'v payload"

fun exchange_events :: "'v exchange \<Rightarrow> 'v event list" where
  "exchange_events (Exchange r m u body code p) =
     [OnRequest r m u, PreHandler r body, OnSend r code p]"

fun exchange_record :: "(string \<Rightarrow> 'v option) \<Rightarrow> 'v exchange \<Rightarrow> 'v traffic_record" where
  "exchange_record json_parse (Exchange r m u body code p) =
     \<lparr>method = m, url = u, status = code, request = body,
      response = parseResponsePayload json_parse p\<rparr>"

definition record_exchanges ::
  "(string \<Rightarrow> 'v option) \<Rightarrow> 'v exchange list \<Rightarrow> ('fs, 'v) world \<Rightarrow> ('fs, 'v) world" where
  "record_exchanges json_parse xs w = run_hooks json_parse (concat (map exchange_events xs)) w"

text \<open>
  The number of \<^verbatim>\<open>onSend\<close> calls, in a sequence of hook calls, that find a holder on their
  request: \<open>known\<close> tells which requests have one at the start.
\<close>

fun sends_with_holder :: "'v event list \<Rightarrow> (nat \<Rightarrow> bool) \<Rightarrow> nat" where
  "sends_with_holder [] known = 0"
| "sends_with_holder (OnRequest r m u # evs) known = sends_with_holder evs (known(r := True))"
| "sends_with_holder (PreHandler r body # evs) known = sends_with_holder evs known"
| "sends_with_holder (OnSend r code p # evs) known =
     (if known r then 1 else 0) + sends_with_holder evs known"

subsection \<open>getTraffic and writeTraffic\<close>

text \<open>\<^verbatim>\<open>[...this.traffic]\<close>: a new array with the same elements.\<close>

definition getTraffic :: "('fs, 'v) world \<Rightarrow> addr \<times> ('fs, 'v) world" where
  "getTraffic w = new_array (traffic_log w) w"

text \<open>A caller changes the array it was given: any new content \<open>xs\<close>.\<close>

definition mutate_array :: "addr \<Rightarrow> addr list \<Rightarrow> ('fs, 'v) world \<Rightarrow> ('fs, 'v) world" where
  "mutate_array a xs w = w\<lparr>arrs := (arrs w)(a \<mapsto> xs)\<rparr>"

definition emoji_chart :: string where
  "emoji_chart = [CHR 0xF0, CHR 0x9F, CHR 0x93, CHR 0x8A]"

definition traffic_path :: "('fs, 'v) auditor_options \<Rightarrow> string \<Rightarrow> string" where
  "traffic_path opts testSuiteName = trafficDir opts @ ''/'' @ testSuiteName @ ''.json''"

definition writeTraffic_try ::
  "('fs, 'v) auditor_options \<Rightarrow> string \<Rightarrow> (('fs, 'v) world, unit) prog" where
  "writeTraffic_try opts testSuiteName w =
     (if length (traffic_log w) = 0
      then console_log (''No traffic to write for '' @ testSuiteName) w
      else
        bind_io (on_storage (mkdir (fileOps opts) (trafficDir opts))) (\<lambda>_ w1.
        bind_io (on_storage (writeFile (fileOps opts) (traffic_path opts testSuiteName)
                   (TrafficJson (traffic_records w1)))) (\<lambda>_ w2.
        bind_io (console_log (emoji_chart @ '' Traffic written: ''
                   @ traffic_path opts testSuiteName
                   @ '' ('' @ show_nat (length (traffic_log w2)) @ '' requests)'')) (\<lambda>_ w3.
        (case new_array [] w3 of (a, w4) \<Rightarrow> (Inr (), w4\<lparr>traffic_ref := a\<rparr>))) w2) w1) w)"

definition writeTraffic ::
  "('fs, 'v) auditor_options \<Rightarrow> string \<Rightarrow> (('fs, 'v) world, unit) prog" where
  "writeTraffic opts testSuiteName =
     try_catch (writeTraffic_try opts testSuiteName)
       (\<lambda>e. console_error (''Failed to write traffic for '' @ testSuiteName @ '':'') e)"

subsection \<open>Clearing the generated directory\<close>

text \<open>\<^verbatim>\<open>filePath.split('/').slice(0, -1).join('/')\<close>.\<close>

definition getDir :: "string \<Rightarrow> string" where
  "getDir filePath = join ''/'' (butlast (split_on (CHR ''/'') filePath))"

definition safeGlob ::
  "('fs, 'v) auditor_options \<Rightarrow> string \<Rightarrow> (('fs, 'v) world, string list) prog" where
  "safeGlob opts pattern =
     try_catch (on_storage (glob (fileOps opts) pattern)) (\<lambda>e. return_io [])"

fun remove_files ::
  "(string \<Rightarrow> 'fs \<Rightarrow> (error + unit) \<times> 'fs) \<Rightarrow> string list \<Rightarrow> (('fs, 'v) world, unit) prog" where
  "remove_files rm [] w = (Inr (), w)"
| "remove_files rm (file # files) w =
     (case on_storage (rm file) w of
        (Inl e, w') \<Rightarrow> (Inl e, w')
      | (Inr u, w') \<Rightarrow> remove_files rm files w')"

definition emoji_broom :: string where
  "emoji_broom = [CHR 0xF0, CHR 0x9F, CHR 0xA7, CHR 0xB9]"

definition clearGeneratedDirectory_try ::
  "('fs, 'v) auditor_options \<Rightarrow> (('fs, 'v) world, unit) prog" where
  "clearGeneratedDirectory_try opts =
     (let generatedDir = getDir (schemaPath opts)
      in bind_io (safeGlob opts (generatedDir @ ''/*.json'')) (\<lambda>schemaFiles.
         bind_io (safeGlob opts (trafficDir opts @ ''/*.json'')) (\<lambda>trafficFiles.
         bind_io (safeGlob opts (generatedDir @ ''/*.md'')) (\<lambda>reportFiles.
         (let allFiles = schemaFiles @ trafficFiles @ reportFiles
          in if length allFiles > 0 then
               bind_io (console_log (emoji_broom @ '' Clearing '' @ show_nat (length allFiles)
                          @ '' files from generated directories'')) (\<lambda>_.
               (case removeFile (fileOps opts) of
                  Some rm \<Rightarrow> remove_files rm allFiles
                | None \<Rightarrow> return_io ()))
             else return_io ())))))"

text \<open>The \<^verbatim>\<open>catch\<close> block is empty: ``Silently ignore errors''.\<close>

definition clearGeneratedDirectory ::
  "('fs, 'v) auditor_options \<Rightarrow> (('fs, 'v) world, unit) prog" where
  "clearGeneratedDirectory opts =
     try_catch (clearGeneratedDirectory_try opts) (\<lambda>e. return_io ())"

subsection \<open>generateAuditReport and teardown\<close>

definition emoji_warning :: string where
  "emoji_warning = [CHR 0xE2, CHR 0x9A, CHR 0xA0, CHR 0xEF, CHR 0xB8, CHR 0x8F]"

definition generateEmptyReport :: "string \<Rightarrow> string" where
  "generateEmptyReport now =
     ''# OpenAPI Traffic Audit Report'' @ nl @ nl @ ''**Generated:** '' @ now @ nl @ nl
     @ emoji_warning
     @ '' No traffic data found. Make sure integration tests are running with traffic recording enabled.''
     @ nl"

text \<open>The loop over the traffic files: each is read and parsed, its records are appended.\<close>

fun load_traffic ::
  "('fs, 'v) file_ops \<Rightarrow> string list \<Rightarrow> 'v traffic_record list
     \<Rightarrow> (('fs, 'v) world, 'v traffic_record list) prog" where
  "load_traffic ops [] allTraffic w = (Inr allTraffic, w)"
| "load_traffic ops (file # files) allTraffic w =
     (case on_storage (readFile ops file) w of
        (Inl e, w') \<Rightarrow> (Inl e, w')
      | (Inr content, w') \<Rightarrow>
          (case parse_traffic content of
             Inl e \<Rightarrow> (Inl e, w')
           | Inr recs \<Rightarrow> load_traffic ops files (allTraffic @ recs) w'))"

definition generateAuditReport ::
  "regexp_engine \<Rightarrow> ('fs, 'v) auditor_options \<Rightarrow> string \<Rightarrow> (('fs, 'v) world, string) prog" where
  "generateAuditReport re opts now =
     bind_io (on_storage (readFile (fileOps opts) (schemaPath opts))) (\<lambda>schemaContent.
     bind_io (lift_result (parse_schema schemaContent)) (\<lambda>sch.
     bind_io (on_storage (glob (fileOps opts) (trafficDir opts @ ''/*.json''))) (\<lambda>trafficFiles.
     bind_io (load_traffic (fileOps opts) trafficFiles []) (\<lambda>allTraffic.
       if length allTraffic = 0 then return_io (generateEmptyReport now)
       else lift_result (generateReport re sch allTraffic now)))))"

definition emoji_flag :: string where
  "emoji_flag = [CHR 0xF0, CHR 0x9F, CHR 0x8F, CHR 0x81]"

text \<open>
  The body of the \<^verbatim>\<open>try\<close> block of \<^verbatim>\<open>teardown\<close>, in its two parts: the snapshot of the
  log (written only when the log is not empty), then the report.
\<close>

definition teardown_write_traffic ::
  "('fs, 'v) auditor_options \<Rightarrow> (('fs, 'v) world, unit) prog" where
  "teardown_write_traffic opts w =
     (if length (traffic_log w) > 0 then
        bind_io (on_storage (mkdir (fileOps opts) (trafficDir opts))) (\<lambda>_ w1.
        bind_io (on_storage (writeFile (fileOps opts)
                   (trafficDir opts @ ''/integration-tests-traffic.json'')
                   (TrafficJson (traffic_records w1)))) (\<lambda>_ w2.
          console_log (emoji_chart @ '' Traffic data written: '' @ trafficDir opts
            @ ''/integration-tests-traffic.json'' @ '' (''
            @ show_nat (length (traffic_log w2)) @ '' requests)'') w2) w1) w
      else (Inr (), w))"

definition teardown_write_report ::
  "regexp_engine \<Rightarrow> ('fs, 'v) auditor_options \<Rightarrow> string \<Rightarrow> (('fs, 'v) world, unit) prog" where
  "teardown_write_report re opts now =
     bind_io (generateAuditReport re opts now) (\<lambda>report.
     bind_io (on_storage (mkdir (fileOps opts) (getDir (reportPath opts)))) (\<lambda>_.
     bind_io (on_storage (writeFile (fileOps opts) (reportPath opts) (PlainText report))) (\<lambda>_.
       console_log (emoji_check @ '' OpenAPI audit report generated: '' @ reportPath opts))))"

definition teardown_try ::
  "regexp_engine \<Rightarrow> ('fs, 'v) auditor_options \<Rightarrow> string \<Rightarrow> (('fs, 'v) world, unit) prog" where
  "teardown_try re opts now =
     bind_io (\<lambda>w. console_log (show_nat (length (traffic_log w))) w) (\<lambda>_.
     bind_io (teardown_write_traffic opts) (\<lambda>_.
       teardown_write_report re opts now))"

definition teardown_failed :: string where
  "teardown_failed = emoji_cross @ '' Failed to generate audit report:''"

definition teardown ::
  "regexp_engine \<Rightarrow> ('fs, 'v) auditor_options \<Rightarrow> string \<Rightarrow> (('fs, 'v) world, unit) prog" where
  "teardown re opts now =
     bind_io (console_log (emoji_chart @ '' Global teardown: Starting OpenAPI traffic audit...''))
       (\<lambda>_.
     bind_io (try_catch (teardown_try re opts now) (\<lambda>e. console_error teardown_failed e)) (\<lambda>_.
       console_log (emoji_flag @ '' Global teardown completed'')))"

subsection \<open>An in-memory storage\<close>

text \<open>
  Modelled from the spec: the File Access Port (section 6: read, write, make directory,
  list by pattern, delete). The auditor receives the operations from its caller; the test
  setup of the repository passes the synchronous file functions of the runtime. This
  storage stands for a file system that works: it keeps the files in a list of path and
  content, and every operation succeeds, except reading a path that holds no file. A pattern
  has one star, which stands for a file name without a slash.
\<close>

record 'v store =
  files :: "(string \<times> 'v doc) list"
  dirs :: "string list"

definition glob_match :: "string \<Rightarrow> string \<Rightarrow> bool" where
  "glob_match pattern path =
     (let pre = takeWhile (\<lambda>c. c \<noteq> CHR ''*'') pattern;
          suf = drop (Suc (length pre)) pattern
      in length pre + length suf \<le> length path
         \<and> take (length pre) path = pre
         \<and> drop (length path - length suf) path = suf
         \<and> CHR ''/'' \<notin> set (drop (length pre) (take (length path - length suf) path)))"

definition mem_ops :: "('v store, 'v) file_ops" where
  "mem_ops =
     \<lparr>readFile = (\<lambda>path st.
        (case map_of (files st) path of
           Some d \<Rightarrow> (Inr d, st)
         | None \<Rightarrow> (Inl (IoError (''ENOENT: no such file or directory, open '' @ path)), st))),
      writeFile = (\<lambda>path d st. (Inr (), st\<lparr>files := map_set path d (files st)\<rparr>)),
      mkdir = (\<lambda>path st. (Inr (), st\<lparr>dirs := set_add path (dirs st)\<rparr>)),
      glob = (\<lambda>pattern st. (Inr (filter (glob_match pattern) (map fst (files st))), st)),
      removeFile = Some (\<lambda>path st.
        (Inr (), st\<lparr>files := filter (\<lambda>(k, d). k \<noteq> path) (files st)\<rparr>))\<rparr>"

definition empty_store :: "'v store" where
  "empty_store = \<lparr>files = [], dirs = []\<rparr>"

text \<open>
  Modelled from the spec: the File Access Port on a file system that refuses some
  operations (section 7: permission issues). The directories \<open>bad_dirs\<close> cannot be
  created and the files \<open>bad_files\<close> cannot be written; such an operation throws and
  leaves the storage as it was. Everything else is as in \<open>mem_ops\<close>.
\<close>

definition flaky_ops :: "string list \<Rightarrow> string list \<Rightarrow> ('v store, 'v) file_ops" where
  "flaky_ops bad_dirs bad_files =
     mem_ops
       \<lparr>writeFile := (\<lambda>path d st.
          if path \<in> set bad_files
          then (Inl (IoError (''EACCES: permission denied, open '' @ path)), st)
          else writeFile mem_ops path d st),
        mkdir := (\<lambda>path st.
          if path \<in> set bad_dirs
          then (Inl (IoError (''EACCES: permission denied, mkdir '' @ path)), st)
          else mkdir mem_ops path st)\<rparr>"

subsection \<open>Notions used in the statements\<close>

text \<open>
  The path matcher as the specification words it (section 4.2), to be compared with
  \<open>normalizePathForSchema\<close>: strip the query; an exact key wins; otherwise both paths are
  split at the slashes and a template matches when the numbers of segments agree and every
  segment of the template is a placeholder facing a non-empty segment or equals the
  segment it faces; the first matching template in the declared order is returned. A
  placeholder segment is a name in braces.
\<close>

definition spec_is_placeholder :: "string \<Rightarrow> bool" where
  "spec_is_placeholder seg =
     (case seg of
        [] \<Rightarrow> False
      | c # rest \<Rightarrow>
          c = CHR ''{'' \<and> rest \<noteq> [] \<and> last rest = CHR ''}'' \<and> butlast rest \<noteq> []
          \<and> list_all (\<lambda>d. d \<noteq> CHR ''{'' \<and> d \<noteq> CHR ''}'') (butlast rest))"

definition spec_segment_matches :: "string \<Rightarrow> string \<Rightarrow> bool" where
  "spec_segment_matches tseg cseg = (if spec_is_placeholder tseg then cseg \<noteq> [] else tseg = cseg)"

definition spec_template_matches :: "string \<Rightarrow> string \<Rightarrow> bool" where
  "spec_template_matches template concretePath =
     list_all2 spec_segment_matches
       (split_on (CHR ''/'') template) (split_on (CHR ''/'') concretePath)"

definition spec_match :: "string \<Rightarrow> paths \<Rightarrow> string option" where
  "spec_match concretePath ps =
     (let cleaned = strip_query concretePath
      in if cleaned \<in> set (map fst ps) then Some cleaned
         else find (\<lambda>template. spec_template_matches template cleaned) (map fst ps))"

text \<open>
  A plain template: each of its segments is a placeholder or consists of characters that
  have no meaning in a regular expression.
\<close>

definition plain_segment :: "string \<Rightarrow> bool" where
  "plain_segment seg = list_all (\<lambda>c. c \<notin> set regex_syntax_chars) seg"

definition plain_template :: "string \<Rightarrow> bool" where
  "plain_template template =
     list_all (\<lambda>seg. spec_is_placeholder seg \<or> plain_segment seg)
       (split_on (CHR ''/'') template)"

text \<open>The pattern that a plain template stands for, segment by segment.\<close>

definition seg_rx :: "string \<Rightarrow> rx list" where
  "seg_rx seg = (if spec_is_placeholder seg then [RNotSlashPlus] else map RLit seg)"

definition seg_pat :: "string \<Rightarrow> string" where
  "seg_pat seg = (if spec_is_placeholder seg then ''[^/]+'' else seg)"

fun segs_rx :: "string list \<Rightarrow> rx list" where
  "segs_rx [] = []"
| "segs_rx [s] = seg_rx s"
| "segs_rx (s # t # ss) = seg_rx s @ RLit (CHR ''/'') # segs_rx (t # ss)"

text \<open>A console line written by \<^verbatim>\<open>console.error\<close>.\<close>

fun is_error_line :: "console_line \<Rightarrow> bool" where
  "is_error_line (ErrorLine msg e) = True"
| "is_error_line (Log msg) = False"

text \<open>
  The store is well formed when addresses in use lie below the allocation counter: the
  array of \<^verbatim>\<open>this.traffic\<close>, its elements and the holders attached to requests.
\<close>

definition wf_world :: "('fs, 'v) world \<Rightarrow> bool" where
  "wf_world w =
     (traffic_ref w < fresh w
      \<and> (\<forall>a \<in> set (traffic_log w). a < fresh w)
      \<and> (\<forall>r a. req_traffic w r = Some a \<longrightarrow> a < fresh w))"

text \<open>
  The state of \<^verbatim>\<open>teardown\<close> when it enters its \<^verbatim>\<open>if\<close>: the two first console lines are
  written. And the text of its last console line.
\<close>

definition teardown_started :: "('fs, 'v) world \<Rightarrow> ('fs, 'v) world" where
  "teardown_started w =
     w\<lparr>console := console w
          @ [Log (emoji_chart @ '' Global teardown: Starting OpenAPI traffic audit...''),
             Log (show_nat (length (traffic_log w)))]\<rparr>"

definition teardown_completed :: string where
  "teardown_completed = emoji_flag @ '' Global teardown completed''"

text \<open>
  Every holder attached to a request exists, and no two requests share one.
\<close>

definition holders_attached :: "('fs, 'v) world \<Rightarrow> bool" where
  "holders_attached w =
     ((\<forall>r a. req_traffic w r = Some a \<longrightarrow> objs w a \<noteq> None)
      \<and> (\<forall>r1 r2 a. req_traffic w r1 = Some a \<and> req_traffic w r2 = Some a \<longrightarrow> r1 = r2))"

text \<open>The holder that each request carries, as a value.\<close>

definition holder_of :: "('fs, 'v) world \<Rightarrow> nat \<Rightarrow> 'v holder option" where
  "holder_of w r = (case req_traffic w r of None \<Rightarrow> None | Some a \<Rightarrow> objs w a)"

text \<open>
  What the log shows after a sequence of hook calls, said without addresses. The entry
  pushed by an \<^verbatim>\<open>onSend\<close> call is the holder of its request, and the log shows what that
  holder has become at the end: \<open>settle r h evs\<close> applies to the holder \<open>h\<close> of request
  \<open>r\<close> the later \<^verbatim>\<open>preHandler\<close> and \<^verbatim>\<open>onSend\<close> calls for \<open>r\<close>, up to the next
  \<^verbatim>\<open>onRequest\<close> for \<open>r\<close>, which gives the request another holder. \<open>logged cur evs\<close> is
  the list of the records that the calls \<open>evs\<close> add to the log, where \<open>cur\<close> tells the
  holder of each request: one entry for every \<^verbatim>\<open>onSend\<close> on a request that has a holder,
  in the order of the calls.
\<close>

fun holder_records :: "'v holder \<Rightarrow> 'v traffic_record list" where
  "holder_records (Complete rc) = [rc]"
| "holder_records (Draft m u rq) = []"

fun settle :: "(string \<Rightarrow> 'v option) \<Rightarrow> nat \<Rightarrow> 'v holder \<Rightarrow> 'v event list \<Rightarrow> 'v holder" where
  "settle json_parse r h [] = h"
| "settle json_parse r h (OnRequest r' m u # evs) =
     (if r' = r then h else settle json_parse r h evs)"
| "settle json_parse r h (PreHandler r' body # evs) =
     settle json_parse r (if r' = r then set_request body h else h) evs"
| "settle json_parse r h (OnSend r' code p # evs) =
     settle json_parse r
       (if r' = r then set_response code (parseResponsePayload json_parse p) h else h) evs"

fun logged ::
  "(string \<Rightarrow> 'v option) \<Rightarrow> (nat \<Rightarrow> 'v holder option) \<Rightarrow> 'v event list
     \<Rightarrow> 'v traffic_record list" where
  "logged json_parse cur [] = []"
| "logged json_parse cur (OnRequest r m u # evs) =
     logged json_parse (cur(r \<mapsto> Draft m u None)) evs"
| "logged json_parse cur (PreHandler r body # evs) =
     logged json_parse (cur(r := map_option (set_request body) (cur r))) evs"
| "logged json_parse cur (OnSend r code p # evs) =
     (case cur r of
        None \<Rightarrow> logged json_parse cur evs
      | Some h \<Rightarrow>
          (let h' = set_response code (parseResponsePayload json_parse p) h
           in holder_records (settle json_parse r h' evs)
              @ logged json_parse (cur(r \<mapsto> h')) evs))"

text \<open>
  The content of the files \<open>paths\<close>, read one after the other through the port; the first
  failing read ends the reading.
\<close>

fun read_all ::
  "('fs, 'v) file_ops \<Rightarrow> string list \<Rightarrow> 'fs \<Rightarrow> (error + 'v doc list) \<times> 'fs" where
  "read_all ops [] st = (Inr [], st)"
| "read_all ops (path # paths) st =
     (case readFile ops path st of
        (Inl e, st') \<Rightarrow> (Inl e, st')
      | (Inr d, st') \<Rightarrow>
          (case read_all ops paths st' of
             (Inl e, st'') \<Rightarrow> (Inl e, st'')
           | (Inr ds, st'') \<Rightarrow> (Inr (d # ds), st'')))"

subsection \<open>Concrete inputs\<close>

text \<open>
  An engine for the examples: right on the fragment, and rejecting every other source as
  a syntax error.
\<close>

definition example_regexp :: regexp_engine where
  "example_regexp = fragment_regexp (\<lambda>source input. Inl (RegexSyntaxError source))"

text \<open>The options of the repository's test setup, with the in-memory storage.\<close>

definition example_options :: "(unit store, unit) auditor_options" where
  "example_options =
     \<lparr>schemaPath = ''./generated/openapi-schema.json'',
      trafficDir = ''./generated/traffic'',
      reportPath = ''./generated/audit-report.md'',
      fileOps = mem_ops\<rparr>"

text \<open>
  The same options on a storage where the directories \<open>bad_dirs\<close> cannot be created and
  the files \<open>bad_files\<close> cannot be written.
\<close>

definition flaky_options ::
  "string list \<Rightarrow> string list \<Rightarrow> (unit store, unit) auditor_options" where
  "flaky_options bad_dirs bad_files =
     example_options\<lparr>fileOps := flaky_ops bad_dirs bad_files\<rparr>"

definition get_x_200 :: "unit traffic_record" where
  "get_x_200 =
     \<lparr>method = ''GET'', url = ''/x'', status = 200, request = None, response = Raw ''ok''\<rparr>"

text \<open>A \<^verbatim>\<open>JSON.parse\<close> that rejects every text, for payloads that are not JSON.\<close>

definition no_json :: "string \<Rightarrow> unit option" where
  "no_json t = None"

definition get_x_500 :: "unit traffic_record" where
  "get_x_500 =
     \<lparr>method = ''GET'', url = ''/x'', status = 500, request = None, response = Raw ''error''\<rparr>"

text \<open>
  Two requests in flight at once: request 1 for \<^verbatim>\<open>/a\<close> arrives first, request 2 for
  \<^verbatim>\<open>/b\<close> is answered first.
\<close>

definition interleaved_hooks :: "unit event list" where
  "interleaved_hooks =
     [OnRequest 1 ''GET'' ''/a'', OnRequest 2 ''GET'' ''/b'',
      PreHandler 1 None, PreHandler 2 None,
      OnSend 2 200 (Raw ''ok''), OnSend 1 404 (Raw ''missing'')]"

definition get_a_404 :: "unit traffic_record" where
  "get_a_404 =
     \<lparr>method = ''GET'', url = ''/a'', status = 404, request = None,
      response = Raw ''missing''\<rparr>"

definition get_b_200 :: "unit traffic_record" where
  "get_b_200 =
     \<lparr>method = ''GET'', url = ''/b'', status = 200, request = None, response = Raw ''ok''\<rparr>"

definition exchanges_a :: "unit exchange list" where
  "exchanges_a = [Exchange 1 ''GET'' ''/x'' None 200 (Raw ''ok'')]"

definition exchanges_b :: "unit exchange list" where
  "exchanges_b = [Exchange 2 ''GET'' ''/x'' None 500 (Raw ''error'')]"

definition registered_world :: "(unit store, unit) world" where
  "registered_world = registerPlugin (new_auditor empty_store)"

text \<open>The auditor after one recorded exchange, on an empty storage.\<close>

definition recorded_world :: "(unit store, unit) world" where
  "recorded_world = record_exchanges no_json exchanges_a registered_world"


text \<open>A storage whose specification file is not JSON.\<close>

definition broken_schema_store :: "unit store" where
  "broken_schema_store =
     \<lparr>files = [(''./generated/openapi-schema.json'', PlainText ''<html>'')],
      dirs = [''./generated'']\<rparr>"

definition enoent_schema :: error where
  "enoent_schema =
     IoError ''ENOENT: no such file or directory, open ./generated/openapi-schema.json''"

text \<open>The in-memory storage with a \<^verbatim>\<open>removeFile\<close> that always throws.\<close>

definition failing_remove_options :: "(unit store, unit) auditor_options" where
  "failing_remove_options =
     example_options\<lparr>fileOps := mem_ops\<lparr>removeFile :=
        Some (\<lambda>path st. (Inl (IoError ''EACCES: permission denied''), st))\<rparr>\<rparr>"

definition spec_dot :: paths where
  "spec_dot = [(''/a.b'', [(''get'', Operation [Code 200])])]"

definition spec_items :: paths where
  "spec_items =
     [(''/items'', [(''get'', Operation [Code 200])]),
      (''/items/{id}'', [(''get'', Operation [Code 200, Code 404])])]"

definition spec_y :: schema where
  "spec_y = \<lparr>schema_paths = Some [(''/y'', [(''get'', Operation [Code 200])])]\<rparr>"

text \<open>
  A storage that holds a specification and two snapshot files, each an array without
  records.
\<close>

definition empty_traffic_store :: "unit store" where
  "empty_traffic_store =
     \<lparr>files = [(''./generated/openapi-schema.json'', SchemaJson spec_y),
               (''./generated/traffic/suiteA.json'', TrafficJson []),
               (''./generated/traffic/suiteB.json'', TrafficJson [])],
      dirs = [''./generated'', ''./generated/traffic'']\<rparr>"

text \<open>A storage that holds a specification without paths and no traffic file.\<close>

definition schema_only_store :: "unit store" where
  "schema_only_store =
     \<lparr>files = [(''./generated/openapi-schema.json'', SchemaJson \<lparr>schema_paths = Some []\<rparr>)],
      dirs = [''./generated'']\<rparr>"

section \<open>Properties\<close>

subsection \<open>Facts about the initial state\<close>

lemma traffic_log_new_auditor: "traffic_log (new_auditor st) = []"
  by (simp add: traffic_log_def array_at_def new_auditor_def)

lemma console_new_auditor: "console (new_auditor st) = []"
  by (simp add: new_auditor_def)

subsection \<open>Percentages\<close>

text \<open>The two roundings of the quotient and of the product show in 23 of 40: 57, not 58.\<close>

lemma percent_examples:
  "percent 23 40 = ''57'' \<and> percent 1 3 = ''33'' \<and> percent 1 2 = ''50''
   \<and> percent 7 8 = ''88'' \<and> percent 0 1 = ''0'' \<and> percent 5 5 = ''100''"
  by (simp add: percent_def math_round_def round_double_def floor_log2_def bit_length.simps
        Let_def round_half_even_def show_nat.simps digit_def)

lemma percent_zero_denominator: "percent 0 0 = ''NaN'' \<and> percent (Suc n) 0 = ''Infinity''"
  by (simp add: percent_def)

text \<open>
  C1 (the code at the failing input). The claim asks for a not-applicable marker when a
  denominator is zero. For a specification without paths and one recorded request both
  denominators are zero, and the summary lines of the report carry \<^verbatim>\<open>NaN%\<close>: the divisions
  are not guarded. No template is declared, so no regular expression is built and the
  result is the same for every engine \<open>re\<close>.
\<close>

theorem generateReport_empty_spec_NaN:
  "generateReport_chunks re \<lparr>schema_paths = Some []\<rparr> [get_x_200] now
   = Inr [title_heading,
          ''**Generated:** '' @ now @ nl @ nl,
          summary_heading,
          ''- **Paths Tested:** 0/0 (NaN%)'' @ nl,
          ''- **Method/Status Combinations Tested:** 0/0 (NaN%)'' @ nl,
          ''- **Total Requests:** 1'' @ nl,
          ''- **Undocumented Endpoints Found:** 1'' @ nl,
          nl,
          undocumented_heading,
          ''*These endpoints were found in traffic but are not documented in the OpenAPI schema:*''
            @ nl @ nl,
          ''### `GET /x`'' @ nl,
          ''- Status codes: 200'' @ nl @ nl,
          tested_heading]"
  apply (simp add: generateReport_chunks_def paths_of_def analyze_record_def
      normalizePathForSchema_def strip_query_def truthy_property_def object_prototype_keys_def
      empty_analysis_def map_has_def toUpperCase_def lower_letters_def upper_letters_def
      set_add_def get_x_200_def)
  apply (simp add: summary_chunks_def undocumented_chunks_def tested_chunks_def
      missing_chunks_def untestedPaths_def partiallyTestedPaths_def totalMethodStatusCombos_def
      testedMethodStatusCombos_def percent_def js_sort_def)
  apply (simp add: show_nat.simps digit_def)
  done

subsection \<open>No traffic at report time\<close>

lemma load_traffic_read_all:
  assumes "read_all ops paths st = (Inr docs, st')"
      and "list_all (\<lambda>d. parse_traffic d = Inr []) docs"
  shows "load_traffic ops paths acc (w\<lparr>storage := st\<rparr>) = (Inr acc, w\<lparr>storage := st'\<rparr>)"
  using assms
proof (induction paths arbitrary: st docs)
  case Nil
  then show ?case by simp
next
  case (Cons path paths)
  obtain d st1 where r: "readFile ops path st = (Inr d, st1)"
    using Cons.prems(1) by (auto split: prod.splits sum.splits)
  obtain ds where rs: "read_all ops paths st1 = (Inr ds, st')" and docs: "docs = d # ds"
    using Cons.prems(1) r by (auto split: prod.splits sum.splits)
  have "load_traffic ops paths acc (w\<lparr>storage := st1\<rparr>) = (Inr acc, w\<lparr>storage := st'\<rparr>)"
    using Cons.IH [OF rs] Cons.prems(2) docs by simp
  then show ?case
    using r Cons.prems(2) docs by (simp add: on_storage_def)
qed

text \<open>
  C8. The specification file has been read and parsed (it is loaded first), the traffic
  files have been listed and read, and every one of them holds an array without records,
  so that the aggregated traffic is empty. Then \<^verbatim>\<open>generateAuditReport\<close> does not throw. It
  returns a document of three short paragraphs: the title, the time of generation, and a
  warning that says \<^verbatim>\<open>No traffic data found\<close>; none of the sections of the full report is
  in it. The storage is as the reads left it.
\<close>

theorem generateAuditReport_no_traffic:
  assumes "readFile (fileOps opts) (schemaPath opts) (storage w) = (Inr content, st1)"
      and "parse_schema content = Inr sch"
      and "glob (fileOps opts) (trafficDir opts @ ''/*.json'') st1 = (Inr trafficFiles, st2)"
      and "read_all (fileOps opts) trafficFiles st2 = (Inr docs, st3)"
      and "list_all (\<lambda>d. parse_traffic d = Inr []) docs"
  shows "generateAuditReport re opts now w
         = (Inr (''# OpenAPI Traffic Audit Report'' @ nl @ nl
                 @ ''**Generated:** '' @ now @ nl @ nl
                 @ emoji_warning
                 @ '' No traffic data found. Make sure integration tests are running with traffic recording enabled.''
                 @ nl),
            w\<lparr>storage := st3\<rparr>)"
proof -
  have "load_traffic (fileOps opts) trafficFiles [] (w\<lparr>storage := st2\<rparr>)
          = (Inr [], w\<lparr>storage := st3\<rparr>)"
    using load_traffic_read_all [OF assms(4) assms(5)] .
  then show ?thesis
    using assms(1-3)
    by (simp add: generateAuditReport_def bind_io_def on_storage_def lift_result_def
          return_io_def generateEmptyReport_def)
qed

theorem generateAuditReport_no_traffic_witness:
  "readFile (fileOps example_options) (schemaPath example_options)
     (storage (new_auditor empty_traffic_store))
     = (Inr (SchemaJson spec_y), empty_traffic_store)
   \<and> parse_schema (SchemaJson spec_y :: unit doc) = Inr spec_y
   \<and> glob (fileOps example_options) (trafficDir example_options @ ''/*.json'')
        empty_traffic_store
       = (Inr [''./generated/traffic/suiteA.json'', ''./generated/traffic/suiteB.json''],
          empty_traffic_store)
   \<and> read_all (fileOps example_options)
        [''./generated/traffic/suiteA.json'', ''./generated/traffic/suiteB.json'']
        empty_traffic_store
       = (Inr [TrafficJson [], TrafficJson []], empty_traffic_store)
   \<and> list_all (\<lambda>d. parse_traffic d = Inr []) [TrafficJson [], TrafficJson [] :: unit doc]
   \<and> generateAuditReport example_regexp example_options ''2026-01-01T00:00:00.000Z''
        (new_auditor empty_traffic_store)
       = (Inr (''# OpenAPI Traffic Audit Report'' @ nl @ nl
               @ ''**Generated:** 2026-01-01T00:00:00.000Z'' @ nl @ nl
               @ emoji_warning
               @ '' No traffic data found. Make sure integration tests are running with traffic recording enabled.''
               @ nl),
          new_auditor empty_traffic_store)"
proof -
  have h1: "readFile (fileOps example_options) (schemaPath example_options)
     (storage (new_auditor empty_traffic_store))
     = (Inr (SchemaJson spec_y), empty_traffic_store)"
    by (simp add: example_options_def mem_ops_def new_auditor_def empty_traffic_store_def)
  have h2: "parse_schema (SchemaJson spec_y :: unit doc) = Inr spec_y"
    by simp
  have h3: "glob (fileOps example_options) (trafficDir example_options @ ''/*.json'')
        empty_traffic_store
       = (Inr [''./generated/traffic/suiteA.json'', ''./generated/traffic/suiteB.json''],
          empty_traffic_store)"
    by (simp add: example_options_def mem_ops_def empty_traffic_store_def glob_match_def)
  have h4: "read_all (fileOps example_options)
        [''./generated/traffic/suiteA.json'', ''./generated/traffic/suiteB.json'']
        empty_traffic_store
       = (Inr [TrafficJson [], TrafficJson []], empty_traffic_store)"
    by (simp add: example_options_def mem_ops_def empty_traffic_store_def)
  have h5: "list_all (\<lambda>d. parse_traffic d = Inr []) [TrafficJson [], TrafficJson [] :: unit doc]"
    by simp
  have s: "(new_auditor empty_traffic_store)\<lparr>storage := empty_traffic_store\<rparr>
             = new_auditor empty_traffic_store"
    by (simp add: new_auditor_def)
  show ?thesis
    using h1 h2 h3 h4 h5
      generateAuditReport_no_traffic [OF h1 h2 h3 h4 h5, of example_regexp
        "''2026-01-01T00:00:00.000Z''"]
    by (simp add: s)
qed

subsection \<open>writeTraffic on an empty log\<close>

text \<open>
  C10. With an empty in-memory log \<^verbatim>\<open>writeTraffic\<close> returns without throwing and calls no
  operation of the port: the storage (directories and files), the log and every other part
  of the state are as before; the only effect is the console line that says so.
\<close>

theorem writeTraffic_empty_log_noop:
  "length (traffic_log w) = 0 \<Longrightarrow>
     writeTraffic opts testSuiteName w =
       (Inr (), w\<lparr>console := console w @ [Log (''No traffic to write for '' @ testSuiteName)]\<rparr>)"
  by (simp add: writeTraffic_def try_catch_def writeTraffic_try_def console_log_def)

theorem writeTraffic_empty_log_noop_witness:
  "length (traffic_log (new_auditor (empty_store :: unit store))) = 0 \<and>
   writeTraffic example_options ''suiteA'' (new_auditor empty_store) =
     (Inr (), (new_auditor empty_store)\<lparr>console := [Log ''No traffic to write for suiteA'']\<rparr>)"
proof -
  have h: "length (traffic_log (new_auditor (empty_store :: unit store))) = 0"
    by (simp add: traffic_log_new_auditor)
  show ?thesis
    using h writeTraffic_empty_log_noop [OF h, of example_options "''suiteA''"]
    by (simp add: console_new_auditor)
qed

subsection \<open>Maps and sets in insertion order\<close>

lemma map_of_map_set: "map_of (map_set k v m) = (map_of m)(k \<mapsto> v)"
  by (induction m) (auto simp: fun_eq_iff)


subsection \<open>Undocumented endpoints\<close>




subsection \<open>The sections of the report\<close>

lemma analyze_spec_y:
  "analyze (fragment_regexp other) (paths_of spec_y) [get_x_200] empty_analysis
     = Inr \<lparr>testedPaths = [], testedMethodsWithStatus = [],
            undocumentedEndpoints = [(''GET /x'', [200])]\<rparr>"
  by (simp add: paths_of_def spec_y_def get_x_200_def analyze_record_def
      normalizePathForSchema_def strip_query_def truthy_property_def object_prototype_keys_def
      empty_analysis_def map_has_def toUpperCase_def lower_letters_def upper_letters_def
      set_add_def regex_syntax_chars_def fragment_regexp_def)

text \<open>
  C6 (the code at the failing input). The claim omits the Tested Endpoints section when no
  declared template was hit. With the specification of \<^verbatim>\<open>/y\<close> and one request to \<^verbatim>\<open>/x\<close>
  nothing is tested (the analysis has no tested path), yet the report carries the heading
  of that section, with nothing below it: the Missing Coverage heading follows at once.
  The Undocumented Endpoints and Missing Coverage sections are guarded by a test of their
  sets; this heading is appended without one. The pattern of \<^verbatim>\<open>/y\<close> has no syntax
  character, so the result holds for every engine that is right on such patterns.
\<close>

theorem tested_heading_without_tested_paths:
  "analyze (fragment_regexp other) (paths_of spec_y) [get_x_200] empty_analysis
     = Inr \<lparr>testedPaths = [], testedMethodsWithStatus = [],
            undocumentedEndpoints = [(''GET /x'', [200])]\<rparr>
   \<and> generateReport_chunks (fragment_regexp other) spec_y [get_x_200]
       ''2026-01-01T00:00:00.000Z''
     = Inr [title_heading,
            ''**Generated:** 2026-01-01T00:00:00.000Z'' @ nl @ nl,
            summary_heading,
            ''- **Paths Tested:** 0/1 (0%)'' @ nl,
            ''- **Method/Status Combinations Tested:** 0/1 (0%)'' @ nl,
            ''- **Total Requests:** 1'' @ nl,
            ''- **Undocumented Endpoints Found:** 1'' @ nl,
            nl,
            undocumented_heading,
            ''*These endpoints were found in traffic but are not documented in the OpenAPI schema:*''
              @ nl @ nl,
            ''### `GET /x`'' @ nl,
            ''- Status codes: 200'' @ nl @ nl,
            tested_heading,
            missing_heading,
            ''### Completely Untested Endpoints'' @ nl @ nl,
            ''#### `/y`'' @ nl,
            ''- **GET**: 200'' @ nl,
            nl]
   \<and> tested_heading = ''## '' @ emoji_check @ '' Tested Endpoints'' @ nl @ nl"
proof -
  have ps: "paths_of spec_y = [(''/y'', [(''get'', Operation [Code 200])])]"
    by (simp add: paths_of_def spec_y_def)
  have p0: "percent 0 (Suc 0) = ''0''"
    by (simp add: percent_def math_round_def round_double_def show_nat.simps digit_def)
  show ?thesis
    unfolding generateReport_chunks_def Let_def analyze_spec_y
    apply (simp add: ps summary_chunks_def undocumented_chunks_def tested_chunks_def
      missing_chunks_def untestedPaths_def partiallyTestedPaths_def untested_chunks_def
      partial_chunks_def totalMethodStatusCombos_def testedMethodStatusCombos_def
      p0 js_sort_def methods_of_def response_keys_def path_item_of_def
      tested_statuses_def toUpperCase_def lower_letters_def upper_letters_def)
    apply (simp add: show_nat.simps digit_def tested_heading_def)
    done
qed

subsection \<open>The recorder\<close>

text \<open>
  The store is well formed initially, and registering the plugin, the hooks, \<^verbatim>\<open>getTraffic\<close>
  and \<^verbatim>\<open>writeTraffic\<close> keep it so; the other methods do not touch it.
\<close>

lemma wf_new_auditor: "wf_world (new_auditor st)"
  by (simp add: wf_world_def new_auditor_def traffic_log_def array_at_def)

lemma registerPlugin_simps:
  "traffic_log (registerPlugin w) = []"
  "traffic_ref (registerPlugin w) = fresh w"
  "fresh (registerPlugin w) = Suc (fresh w)"
  "objs (registerPlugin w) = objs w"
  "req_traffic (registerPlugin w) = req_traffic w"
  "storage (registerPlugin w) = storage w"
  "console (registerPlugin w) = console w"
  by (simp_all add: registerPlugin_def new_array_def traffic_log_def array_at_def)

lemma wf_registerPlugin: "wf_world w \<Longrightarrow> wf_world (registerPlugin w)"
  by (auto simp: wf_world_def registerPlugin_simps less_Suc_eq)

lemma on_request_simps:
  "traffic_log (on_request r m u w) = traffic_log w"
  "traffic_ref (on_request r m u w) = traffic_ref w"
  "fresh (on_request r m u w) = Suc (fresh w)"
  "req_traffic (on_request r m u w) = (req_traffic w)(r \<mapsto> fresh w)"
  "objs (on_request r m u w) = (objs w)(fresh w \<mapsto> Draft m u None)"
  "storage (on_request r m u w) = storage w"
  "console (on_request r m u w) = console w"
  by (simp_all add: on_request_def traffic_log_def array_at_def)

lemma pre_handler_simps:
  "traffic_log (pre_handler r body w) = traffic_log w"
  "traffic_ref (pre_handler r body w) = traffic_ref w"
  "fresh (pre_handler r body w) = fresh w"
  "req_traffic (pre_handler r body w) = req_traffic w"
  "storage (pre_handler r body w) = storage w"
  "console (pre_handler r body w) = console w"
  by (simp_all add: pre_handler_def traffic_log_def array_at_def split: option.splits)

lemma on_send_simps:
  "traffic_ref (on_send jp r code p w) = traffic_ref w"
  "fresh (on_send jp r code p w) = fresh w"
  "req_traffic (on_send jp r code p w) = req_traffic w"
  "storage (on_send jp r code p w) = storage w"
  "console (on_send jp r code p w) = console w"
  by (simp_all add: on_send_def split: option.splits)

lemma traffic_log_on_send:
  "traffic_log (on_send jp r code p w)
     = (case req_traffic w r of None \<Rightarrow> traffic_log w | Some a \<Rightarrow> traffic_log w @ [a])"
  by (simp add: on_send_def traffic_log_def array_at_def split: option.splits)

lemma run_hooks_append:
  "run_hooks jp (evs @ evs') w = run_hooks jp evs' (run_hooks jp evs w)"
  by (induction evs arbitrary: w) simp_all

lemma map_filter_cong_set:
  "(\<And>x. x \<in> set xs \<Longrightarrow> f x = g x) \<Longrightarrow> List.map_filter f xs = List.map_filter g xs"
  by (induction xs) (auto split: option.splits)

lemma traffic_records_alt:
  "traffic_records w
     = List.map_filter (\<lambda>a. case objs w a of Some (Complete rc) \<Rightarrow> Some rc | _ \<Rightarrow> None)
         (traffic_log w)"
  by (simp add: traffic_records_def records_at_def traffic_log_def)

lemma map_filter_snoc:
  "List.map_filter f (xs @ [x]) = List.map_filter f xs @ (case f x of None \<Rightarrow> [] | Some y \<Rightarrow> [y])"
  by (induction xs) (simp_all split: option.splits)

lemma exchange_effect:
  fixes w :: "('fs, 'v) world" and jp :: "string \<Rightarrow> 'v option" and x :: "'v exchange"
  assumes "wf_world w"
  defines "w' \<equiv> run_hooks jp (exchange_events x) w"
  shows "traffic_log w' = traffic_log w @ [fresh w]"
    and "objs w' = (objs w)(fresh w \<mapsto> Complete (exchange_record jp x))"
    and "fresh w' = Suc (fresh w)"
    and "traffic_ref w' = traffic_ref w"
    and "storage w' = storage w"
    and "console w' = console w"
    and "wf_world w'"
proof -
  obtain r m u body code p where x: "x = Exchange r m u body code p"
    by (cases x)
  have w': "w' = on_send jp r code p (pre_handler r body (on_request r m u w))"
    by (simp add: w'_def x)
  let ?w1 = "on_request r m u w"
  let ?w2 = "pre_handler r body ?w1"
  have r2: "req_traffic ?w2 r = Some (fresh w)"
    by (simp add: pre_handler_simps on_request_simps)
  have o2: "objs ?w2 = (objs w)(fresh w \<mapsto> Draft m u body)"
    by (simp add: pre_handler_def on_request_def)
  show log: "traffic_log w' = traffic_log w @ [fresh w]"
    by (simp add: w' traffic_log_on_send r2 pre_handler_simps on_request_simps)
  show "objs w' = (objs w)(fresh w \<mapsto> Complete (exchange_record jp x))"
    unfolding w' by (simp add: on_send_def r2 o2 x)
  show fr: "fresh w' = Suc (fresh w)"
    by (simp add: w' on_send_simps pre_handler_simps on_request_simps)
  show tr: "traffic_ref w' = traffic_ref w"
    by (simp add: w' on_send_simps pre_handler_simps on_request_simps)
  show "storage w' = storage w"
    by (simp add: w' on_send_simps pre_handler_simps on_request_simps)
  show "console w' = console w"
    by (simp add: w' on_send_simps pre_handler_simps on_request_simps)
  have rq: "req_traffic w' = (req_traffic w)(r \<mapsto> fresh w)"
    by (simp add: w' on_send_simps pre_handler_simps on_request_simps)
  show "wf_world w'"
    using assms(1) by (auto simp: wf_world_def log fr tr rq less_Suc_eq)
qed

lemma exchange_records:
  assumes "wf_world w"
  shows "traffic_records (run_hooks jp (exchange_events x) w)
           = traffic_records w @ [exchange_record jp x]"
proof -
  let ?w' = "run_hooks jp (exchange_events x) w"
  show ?thesis
    unfolding traffic_records_alt exchange_effect(1,2) [OF assms]
    apply (simp add: map_filter_snoc)
    apply (rule map_filter_cong_set)
    using assms apply (auto simp: wf_world_def)
    done
qed

lemma record_exchanges_Cons:
  "record_exchanges jp (x # xs) w = record_exchanges jp xs (run_hooks jp (exchange_events x) w)"
  by (simp add: record_exchanges_def run_hooks_append del: exchange_events.simps)

lemma record_exchanges_effect:
  "wf_world w \<Longrightarrow>
     traffic_records (record_exchanges jp xs w) = traffic_records w @ map (exchange_record jp) xs
   \<and> length (traffic_log (record_exchanges jp xs w)) = length (traffic_log w) + length xs
   \<and> storage (record_exchanges jp xs w) = storage w
   \<and> console (record_exchanges jp xs w) = console w
   \<and> wf_world (record_exchanges jp xs w)"
proof (induction xs arbitrary: w)
  case Nil
  then show ?case by (simp add: record_exchanges_def)
next
  case (Cons x xs)
  let ?w1 = "run_hooks jp (exchange_events x) w"
  have wf1: "wf_world ?w1"
    by (rule exchange_effect(7) [OF Cons.prems])
  show ?case
    using Cons.IH [OF wf1]
    by (simp add: record_exchanges_Cons exchange_records [OF Cons.prems]
        exchange_effect(1,5,6) [OF Cons.prems] del: exchange_events.simps)
qed

lemma wf_registered_world: "wf_world registered_world"
  unfolding registered_world_def by (intro wf_registerPlugin wf_new_auditor)

lemma traffic_log_registered_world: "traffic_log registered_world = []"
  by (simp add: registered_world_def registerPlugin_simps)

lemma wf_hook: "wf_world w \<Longrightarrow> wf_world (hook jp ev w)"
proof (cases ev)
  case (OnRequest r m u)
  assume "wf_world w"
  then show ?thesis
    using OnRequest by (auto simp: wf_world_def on_request_simps less_Suc_eq)
next
  case (PreHandler r body)
  assume "wf_world w"
  then show ?thesis
    using PreHandler by (auto simp: wf_world_def pre_handler_simps)
next
  case (OnSend r code p)
  assume "wf_world w"
  then show ?thesis
    using OnSend
    by (auto simp: wf_world_def on_send_simps traffic_log_on_send split: option.splits)
qed

lemma wf_run_hooks: "wf_world w \<Longrightarrow> wf_world (run_hooks jp evs w)"
  by (induction evs arbitrary: w) (simp_all add: wf_hook)

lemma wf_getTraffic: "wf_world w \<Longrightarrow> wf_world (snd (getTraffic w))"
  by (auto simp: wf_world_def getTraffic_def new_array_def traffic_log_def array_at_def
      less_Suc_eq)

lemma wf_writeTraffic: "wf_world w \<Longrightarrow> wf_world (snd (writeTraffic opts name w))"
  by (auto simp: writeTraffic_def try_catch_def writeTraffic_try_def bind_io_def on_storage_def
      console_log_def console_error_def new_array_def wf_world_def traffic_log_def array_at_def
      less_Suc_eq split: prod.splits sum.splits)

subsection \<open>The content of the log after any sequence of hook calls\<close>

lemma holders_attached_hook:
  assumes "wf_world w" and "holders_attached w"
  shows "holders_attached (hook jp ev w)"
proof (cases ev)
  case (OnRequest r m u)
  have lt: "\<And>r' a. req_traffic w r' = Some a \<Longrightarrow> a < fresh w"
    using assms(1) by (simp add: wf_world_def)
  show ?thesis
    using assms(2) lt unfolding OnRequest holders_attached_def
    by (auto simp: on_request_simps split: if_splits)
next
  case (PreHandler r body)
  show ?thesis
    using assms(2) unfolding PreHandler holders_attached_def
    by (auto simp: pre_handler_def split: option.splits if_splits)
next
  case (OnSend r code p)
  show ?thesis
    using assms(2) unfolding OnSend holders_attached_def
    by (auto simp: on_send_def split: option.splits if_splits)
qed

lemma holder_of_on_request:
  assumes "wf_world w"
  shows "holder_of (on_request r m u w) = (holder_of w)(r \<mapsto> Draft m u None)"
proof -
  have lt: "\<And>r' a. req_traffic w r' = Some a \<Longrightarrow> a \<noteq> fresh w"
    using assms by (auto simp: wf_world_def)
  show ?thesis
    using lt by (auto simp: holder_of_def on_request_simps fun_eq_iff split: option.splits)
qed

lemma holder_of_pre_handler:
  assumes "holders_attached w"
  shows "holder_of (pre_handler r body w)
           = (holder_of w)(r := map_option (set_request body) (holder_of w r))"
  using assms
  by (auto simp: holder_of_def pre_handler_def holders_attached_def fun_eq_iff
           split: option.splits)

lemma holder_of_on_send:
  assumes "holders_attached w"
  shows "holder_of (on_send jp r code p w)
           = (holder_of w)(r := map_option
                (set_response code (parseResponsePayload jp p)) (holder_of w r))"
  using assms
  by (auto simp: holder_of_def on_send_def holders_attached_def fun_eq_iff
           split: option.splits)

text \<open>A holder that no request carries is never changed again.\<close>

lemma objs_hook_unattached:
  assumes "a < fresh w" and "\<forall>r. req_traffic w r \<noteq> Some a"
  shows "objs (hook jp ev w) a = objs w a
       \<and> a < fresh (hook jp ev w)
       \<and> (\<forall>r. req_traffic (hook jp ev w) r \<noteq> Some a)"
  using assms
  by (cases ev)
     (auto simp: on_request_simps pre_handler_def on_send_def split: option.splits)

lemma objs_run_hooks_unattached:
  "a < fresh w \<Longrightarrow> \<forall>r. req_traffic w r \<noteq> Some a
     \<Longrightarrow> objs (run_hooks jp evs w) a = objs w a"
proof (induction evs arbitrary: w)
  case Nil
  then show ?case by simp
next
  case (Cons ev evs)
  note h = objs_hook_unattached [OF Cons.prems, of jp ev]
  have "objs (run_hooks jp evs (hook jp ev w)) a = objs (hook jp ev w) a"
    using h by (intro Cons.IH) simp_all
  then show ?case using h by simp
qed

text \<open>The holder of a request follows the later calls for that request.\<close>

lemma objs_pre_handler_attached:
  assumes "holders_attached w" and "req_traffic w r = Some a" and "objs w a = Some h"
  shows "objs (pre_handler r' body w) a = Some (if r' = r then set_request body h else h)"
proof (cases "req_traffic w r'")
  case None
  then have "r' \<noteq> r" using assms(2) by auto
  then show ?thesis using None assms(3) by (simp add: pre_handler_def)
next
  case (Some a')
  show ?thesis
  proof (cases "r' = r")
    case True
    then have "a' = a" using Some assms(2) by simp
    then show ?thesis using Some True assms(3) by (simp add: pre_handler_def)
  next
    case False
    have "a' \<noteq> a"
    proof
      assume "a' = a"
      then have "r' = r"
        using assms(1,2) Some unfolding holders_attached_def by blast
      then show False using False by simp
    qed
    then show ?thesis using Some False assms(3) by (simp add: pre_handler_def)
  qed
qed

lemma objs_on_send_attached:
  assumes "holders_attached w" and "req_traffic w r = Some a" and "objs w a = Some h"
  shows "objs (on_send jp r' code p w) a
           = Some (if r' = r then set_response code (parseResponsePayload jp p) h else h)"
proof (cases "req_traffic w r'")
  case None
  then have "r' \<noteq> r" using assms(2) by auto
  then show ?thesis using None assms(3) by (simp add: on_send_def)
next
  case (Some a')
  show ?thesis
  proof (cases "r' = r")
    case True
    then have "a' = a" using Some assms(2) by simp
    then show ?thesis using Some True assms(3) by (simp add: on_send_def)
  next
    case False
    have "a' \<noteq> a"
    proof
      assume "a' = a"
      then have "r' = r"
        using assms(1,2) Some unfolding holders_attached_def by blast
      then show False using False by simp
    qed
    then show ?thesis using Some False assms(3) by (simp add: on_send_def)
  qed
qed

lemma objs_run_hooks_attached:
  "wf_world w \<Longrightarrow> holders_attached w \<Longrightarrow> req_traffic w r = Some a \<Longrightarrow> objs w a = Some h
     \<Longrightarrow> objs (run_hooks jp evs w) a = Some (settle jp r h evs)"
proof (induction evs arbitrary: w h)
  case Nil
  then show ?case by simp
next
  case (Cons ev evs)
  note wf' = wf_hook [OF Cons.prems(1), of jp ev]
  note at' = holders_attached_hook [OF Cons.prems(1,2), of jp ev]
  have lt: "a < fresh w"
    using Cons.prems(1,3) unfolding wf_world_def by blast
  show ?case
  proof (cases ev)
    case (OnRequest r' m u)
    have o: "objs (hook jp ev w) a = Some h"
      using lt Cons.prems(4) by (simp add: OnRequest on_request_simps)
    show ?thesis
    proof (cases "r' = r")
      case True
      have un: "\<forall>q. req_traffic (hook jp ev w) q \<noteq> Some a"
      proof
        fix q
        show "req_traffic (hook jp ev w) q \<noteq> Some a"
        proof (cases "q = r")
          case True
          then show ?thesis using lt \<open>r' = r\<close> by (simp add: OnRequest on_request_simps)
        next
          case False
          have "req_traffic w q \<noteq> Some a"
          proof
            assume "req_traffic w q = Some a"
            then have "q = r"
              using Cons.prems(2,3) unfolding holders_attached_def by blast
            then show False using False by simp
          qed
          then show ?thesis using False \<open>r' = r\<close> by (simp add: OnRequest on_request_simps)
        qed
      qed
      have "a < fresh (hook jp ev w)"
        using lt by (simp add: OnRequest on_request_simps)
      then have "objs (run_hooks jp evs (hook jp ev w)) a = objs (hook jp ev w) a"
        using un by (rule objs_run_hooks_unattached)
      then show ?thesis using o by (simp add: OnRequest True)
    next
      case False
      have rq: "req_traffic (hook jp ev w) r = Some a"
        using False Cons.prems(3) by (simp add: OnRequest on_request_simps)
      show ?thesis
        using Cons.IH [OF wf' at' rq o] False by (simp add: OnRequest)
    qed
  next
    case (PreHandler r' body)
    have rq: "req_traffic (hook jp ev w) r = Some a"
      using Cons.prems(3) by (simp add: PreHandler pre_handler_simps)
    have o: "objs (hook jp ev w) a = Some (if r' = r then set_request body h else h)"
      unfolding PreHandler hook.simps
      by (rule objs_pre_handler_attached [OF Cons.prems(2,3,4)])
    show ?thesis
      using Cons.IH [OF wf' at' rq o] by (simp add: PreHandler)
  next
    case (OnSend r' code p)
    have rq: "req_traffic (hook jp ev w) r = Some a"
      using Cons.prems(3) by (simp add: OnSend on_send_simps)
    have o: "objs (hook jp ev w) a
               = Some (if r' = r then set_response code (parseResponsePayload jp p) h else h)"
      unfolding OnSend hook.simps
      by (rule objs_on_send_attached [OF Cons.prems(2,3,4)])
    show ?thesis
      using Cons.IH [OF wf' at' rq o] by (simp add: OnSend)
  qed
qed

text \<open>
  The records of the log after the calls: the entries that were there, as they are at the
  end, followed by the entries that the calls add.
\<close>

lemma traffic_records_run_hooks:
  "wf_world w \<Longrightarrow> holders_attached w \<Longrightarrow>
     traffic_records (run_hooks jp evs w)
       = List.map_filter
           (\<lambda>a. case objs (run_hooks jp evs w) a of Some (Complete rc) \<Rightarrow> Some rc | _ \<Rightarrow> None)
           (traffic_log w)
         @ logged jp (holder_of w) evs"
proof (induction evs arbitrary: w)
  case Nil
  then show ?case by (simp add: traffic_records_alt)
next
  case (Cons ev evs)
  note wf' = wf_hook [OF Cons.prems(1), of jp ev]
  note at' = holders_attached_hook [OF Cons.prems, of jp ev]
  note ih = Cons.IH [OF wf' at']
  show ?case
  proof (cases ev)
    case (OnRequest r m u)
    have l: "logged jp (holder_of w) (ev # evs) = logged jp (holder_of (hook jp ev w)) evs"
      by (simp add: OnRequest holder_of_on_request [OF Cons.prems(1)])
    have t: "traffic_log (hook jp ev w) = traffic_log w"
      by (simp add: OnRequest on_request_simps)
    show ?thesis
      unfolding run_hooks.simps l by (rule ih [unfolded t])
  next
    case (PreHandler r body)
    have l: "logged jp (holder_of w) (ev # evs) = logged jp (holder_of (hook jp ev w)) evs"
      by (simp add: PreHandler holder_of_pre_handler [OF Cons.prems(2)])
    have t: "traffic_log (hook jp ev w) = traffic_log w"
      by (simp add: PreHandler pre_handler_simps)
    show ?thesis
      unfolding run_hooks.simps l by (rule ih [unfolded t])
  next
    case (OnSend r code p)
    show ?thesis
    proof (cases "req_traffic w r")
      case None
      have same: "hook jp ev w = w"
        by (simp add: OnSend on_send_def None)
      have l: "logged jp (holder_of w) (ev # evs) = logged jp (holder_of w) evs"
        by (simp add: OnSend holder_of_def None)
      show ?thesis
        unfolding run_hooks.simps l same by (rule ih [unfolded same])
    next
      case (Some a)
      have "objs w a \<noteq> None"
        using Cons.prems(2) Some unfolding holders_attached_def by blast
      then obtain h where h: "objs w a = Some h"
        by blast
      let ?h' = "set_response code (parseResponsePayload jp p) h"
      have ho: "holder_of w r = Some h"
        by (simp add: holder_of_def Some h)
      have rq: "req_traffic (hook jp ev w) r = Some a"
        by (simp add: OnSend on_send_simps Some)
      have o: "objs (hook jp ev w) a = Some ?h'"
        by (simp add: OnSend on_send_def Some h)
      have fin: "objs (run_hooks jp evs (hook jp ev w)) a = Some (settle jp r ?h' evs)"
        by (rule objs_run_hooks_attached [OF wf' at' rq o])
      have log: "traffic_log (hook jp ev w) = traffic_log w @ [a]"
        by (simp add: OnSend traffic_log_on_send Some)
      have hof: "holder_of (hook jp ev w) = (holder_of w)(r \<mapsto> ?h')"
        by (simp add: OnSend holder_of_on_send [OF Cons.prems(2)] ho)
      have last: "(case (case Some (settle jp r ?h' evs) of
                           Some (Complete rc) \<Rightarrow> Some rc | _ \<Rightarrow> None) of
                     None \<Rightarrow> [] | Some y \<Rightarrow> [y])
                  = holder_records (settle jp r ?h' evs)"
        by (cases "settle jp r ?h' evs") simp_all
      have l: "logged jp (holder_of w) (ev # evs)
                 = holder_records (settle jp r ?h' evs)
                   @ logged jp (holder_of (hook jp ev w)) evs"
        unfolding hof by (simp add: OnSend ho Let_def)
      have m: "List.map_filter
                 (\<lambda>a. case objs (run_hooks jp evs (hook jp ev w)) a of
                        Some (Complete rc) \<Rightarrow> Some rc | _ \<Rightarrow> None)
                 (traffic_log (hook jp ev w))
               = List.map_filter
                   (\<lambda>a. case objs (run_hooks jp evs (hook jp ev w)) a of
                          Some (Complete rc) \<Rightarrow> Some rc | _ \<Rightarrow> None)
                   (traffic_log w)
                 @ holder_records (settle jp r ?h' evs)"
        unfolding log map_filter_snoc fin last ..
      show ?thesis
        unfolding run_hooks.simps l using ih by (simp only: m append_assoc)
    qed
  qed
qed

text \<open>An entry is a complete record, and stays one.\<close>

lemma length_holder_records_settle:
  "length (holder_records (settle jp r (Complete rc) evs)) = 1"
proof (induction evs arbitrary: rc)
  case Nil
  then show ?case by simp
next
  case (Cons ev evs)
  then show ?case by (cases ev) simp_all
qed

lemma length_logged:
  "length (logged jp cur evs) = sends_with_holder evs (\<lambda>r. cur r \<noteq> None)"
proof (induction evs arbitrary: cur)
  case Nil
  then show ?case by simp
next
  case (Cons ev evs)
  show ?case
  proof (cases ev)
    case (OnRequest r m u)
    have "(\<lambda>x. (cur(r \<mapsto> Draft m u None)) x \<noteq> None) = (\<lambda>x. cur x \<noteq> None)(r := True)"
      by (auto simp: fun_eq_iff)
    then have "length (logged jp (cur(r \<mapsto> Draft m u None)) evs)
                 = sends_with_holder evs ((\<lambda>x. cur x \<noteq> None)(r := True))"
      unfolding Cons by (rule arg_cong)
    then show ?thesis
      unfolding OnRequest logged.simps sends_with_holder.simps .
  next
    case (PreHandler r body)
    have "(\<lambda>x. (cur(r := map_option (set_request body) (cur r))) x \<noteq> None)
            = (\<lambda>x. cur x \<noteq> None)"
      by (auto simp: fun_eq_iff)
    then have "length (logged jp (cur(r := map_option (set_request body) (cur r))) evs)
                 = sends_with_holder evs (\<lambda>x. cur x \<noteq> None)"
      unfolding Cons by (rule arg_cong)
    then show ?thesis
      unfolding PreHandler logged.simps sends_with_holder.simps .
  next
    case (OnSend r code p)
    show ?thesis
    proof (cases "cur r")
      case None
      then show ?thesis
        using Cons [of cur] by (simp add: OnSend)
    next
      case (Some h)
      let ?h' = "set_response code (parseResponsePayload jp p) h"
      obtain rc where rc: "?h' = Complete rc"
        by (cases h) simp_all
      have "(\<lambda>x. (cur(r \<mapsto> ?h')) x \<noteq> None) = (\<lambda>x. cur x \<noteq> None)"
        using Some by (auto simp: fun_eq_iff)
      then have rest: "length (logged jp (cur(r \<mapsto> ?h')) evs)
                         = sends_with_holder evs (\<lambda>x. cur x \<noteq> None)"
        unfolding Cons by (rule arg_cong)
      have "logged jp cur (ev # evs)
              = holder_records (settle jp r ?h' evs) @ logged jp (cur(r \<mapsto> ?h')) evs"
        unfolding OnSend logged.simps by (simp add: Some Let_def)
      then show ?thesis
        using rest length_holder_records_settle [of jp r rc evs]
        by (simp add: OnSend Some rc [symmetric])
    qed
  qed
qed

text \<open>Exchanges that are finalized once each, one after the other.\<close>

lemma settle_exchanges:
  "settle jp r h (concat (map exchange_events xs)) = h"
proof (induction xs)
  case Nil
  then show ?case by simp
next
  case (Cons x xs)
  then show ?case by (cases x) simp
qed

lemma logged_exchanges:
  "logged jp cur (concat (map exchange_events xs)) = map (exchange_record jp) xs"
proof (induction xs arbitrary: cur)
  case Nil
  then show ?case by simp
next
  case (Cons x xs)
  obtain r m u body code p where x: "x = Exchange r m u body code p"
    by (cases x)
  show ?case
    using Cons.IH settle_exchanges [of jp r _ xs]
    by (simp add: x Let_def)
qed

text \<open>
  C7 (as stated, refuted). The claim allows at most one record for an exchange even when
  the service sends more than once. When \<^verbatim>\<open>onSend\<close> runs twice for the same request (a first
  response with status 200, then an error response with status 500), the log has two
  entries for the one exchange; both are the same holder object, so both show the last
  status.
\<close>

theorem two_sends_two_entries:
  "traffic_records (run_hooks no_json
      [OnRequest 1 ''GET'' ''/x'', PreHandler 1 None,
       OnSend 1 200 (Raw ''ok''), OnSend 1 500 (Raw ''error'')]
      registered_world) = [get_x_500, get_x_500]"
  by (simp add: registered_world_def registerPlugin_def new_array_def new_auditor_def
      on_request_def pre_handler_def on_send_def traffic_log_def array_at_def
      traffic_records_def records_at_def parseResponsePayload_def no_json_def get_x_500_def)

text \<open>
  C7 (amended). The log after any sequence of hook calls, started when no request carries
  a holder: the records that were in the log, followed by one entry for every \<^verbatim>\<open>onSend\<close>
  call on a request that has a holder, in the order of those calls, and nothing else. The
  entry is the holder of the request itself, so it shows the method and url given at
  \<^verbatim>\<open>onRequest\<close> and the body, status and response that the calls for that request have
  written into the holder by the end (\<open>logged\<close> and \<open>settle\<close> say this without addresses).
  The number of new entries is the number of such \<^verbatim>\<open>onSend\<close> calls: there is no check
  for a request that was recorded before. Exchanges that the service finalizes once each
  leave exactly one record each, in the order of their finalization, holding method, url,
  request body, final status and parsed response.
\<close>

theorem recorder_appends_per_send:
  "(wf_world w \<and> (\<forall>r. req_traffic w r = None) \<longrightarrow>
      traffic_records (run_hooks jp evs w) = traffic_records w @ logged jp (\<lambda>r. None) evs)
   \<and> length (logged jp cur evs) = sends_with_holder evs (\<lambda>r. cur r \<noteq> None)
   \<and> logged jp cur (concat (map exchange_events xs)) = map (exchange_record jp) xs"
proof -
  have main: "traffic_records (run_hooks jp evs w)
                = traffic_records w @ logged jp (\<lambda>r. None) evs"
    if wf: "wf_world w" and none: "\<forall>r. req_traffic w r = None"
  proof -
    have at: "holders_attached w"
      using none by (simp add: holders_attached_def)
    have ho: "holder_of w = (\<lambda>r. None)"
      using none by (simp add: holder_of_def fun_eq_iff)
    have old: "objs (run_hooks jp evs w) a = objs w a" if "a \<in> set (traffic_log w)" for a
    proof -
      have "a < fresh w"
        using wf that by (simp add: wf_world_def)
      then show ?thesis
        using none by (intro objs_run_hooks_unattached) simp_all
    qed
    have "List.map_filter
            (\<lambda>a. case objs (run_hooks jp evs w) a of Some (Complete rc) \<Rightarrow> Some rc | _ \<Rightarrow> None)
            (traffic_log w) = traffic_records w"
      unfolding traffic_records_alt
      by (rule map_filter_cong_set) (simp add: old)
    then show ?thesis
      using traffic_records_run_hooks [OF wf at, of jp evs] by (simp add: ho)
  qed
  show ?thesis
    using main length_logged [of jp cur evs] logged_exchanges [of jp cur xs] by simp
qed

theorem recorder_appends_per_send_witness:
  "wf_world registered_world
   \<and> (\<forall>r. req_traffic registered_world r = None)
   \<and> traffic_records (run_hooks no_json interleaved_hooks registered_world)
       = [get_b_200, get_a_404]
   \<and> traffic_records (run_hooks no_json
         [OnRequest 1 ''GET'' ''/x'', PreHandler 1 None,
          OnSend 1 200 (Raw ''ok''), OnSend 1 500 (Raw ''error'')]
         registered_world) = [get_x_500, get_x_500]
   \<and> logged no_json (\<lambda>r. None) (concat (map exchange_events (exchanges_a @ exchanges_b)))
       = [get_x_200, get_x_500]"
proof -
  have k: "\<forall>r. req_traffic registered_world r = None"
    by (simp add: registered_world_def registerPlugin_simps new_auditor_def)
  have r0: "traffic_records registered_world = []"
    by (simp add: traffic_records_alt traffic_log_registered_world)
  have ex: "map (exchange_record no_json) (exchanges_a @ exchanges_b) = [get_x_200, get_x_500]"
    by (simp add: exchanges_a_def exchanges_b_def get_x_200_def get_x_500_def
          parseResponsePayload_def no_json_def)
  have l1: "logged no_json (\<lambda>r. None) interleaved_hooks = [get_b_200, get_a_404]"
    by (simp add: interleaved_hooks_def get_b_200_def get_a_404_def parseResponsePayload_def
          no_json_def)
  have l2: "logged no_json (\<lambda>r. None)
         [OnRequest 1 ''GET'' ''/x'', PreHandler 1 None,
          OnSend 1 200 (Raw ''ok''), OnSend 1 500 (Raw ''error'')] = [get_x_500, get_x_500]"
    by (simp add: get_x_500_def parseResponsePayload_def no_json_def)
  note t = recorder_appends_per_send [of registered_world no_json _ "\<lambda>r. None"
      "exchanges_a @ exchanges_b"]
  have "traffic_records (run_hooks no_json interleaved_hooks registered_world)
          = traffic_records registered_world @ logged no_json (\<lambda>r. None) interleaved_hooks"
    using t [of interleaved_hooks] wf_registered_world k by blast
  then have a1: "traffic_records (run_hooks no_json interleaved_hooks registered_world)
                   = [get_b_200, get_a_404]"
    unfolding r0 l1 by simp
  have "traffic_records (run_hooks no_json
         [OnRequest 1 ''GET'' ''/x'', PreHandler 1 None,
          OnSend 1 200 (Raw ''ok''), OnSend 1 500 (Raw ''error'')]
         registered_world)
          = traffic_records registered_world @ logged no_json (\<lambda>r. None)
         [OnRequest 1 ''GET'' ''/x'', PreHandler 1 None,
          OnSend 1 200 (Raw ''ok''), OnSend 1 500 (Raw ''error'')]"
    using t [of "[OnRequest 1 ''GET'' ''/x'', PreHandler 1 None,
          OnSend 1 200 (Raw ''ok''), OnSend 1 500 (Raw ''error'')]"] wf_registered_world k
    by blast
  then have a2: "traffic_records (run_hooks no_json
         [OnRequest 1 ''GET'' ''/x'', PreHandler 1 None,
          OnSend 1 200 (Raw ''ok''), OnSend 1 500 (Raw ''error'')]
         registered_world) = [get_x_500, get_x_500]"
    unfolding r0 l2 by simp
  have a3: "logged no_json (\<lambda>r. None)
              (concat (map exchange_events (exchanges_a @ exchanges_b)))
            = [get_x_200, get_x_500]"
    using t [of "[]"] unfolding ex by blast
  show ?thesis
    using wf_registered_world k a1 a2 a3 by blast
qed

subsection \<open>getTraffic\<close>

text \<open>
  C9. When the array of \<^verbatim>\<open>this.traffic\<close> lies below the allocation counter (as it does in
  every well-formed store), \<^verbatim>\<open>getTraffic\<close> returns a new array that holds the elements of
  the log and is not the array of \<^verbatim>\<open>this.traffic\<close>; the call itself leaves the log as it
  was, and whatever the caller then makes of the content of the returned array (elements
  appended, removed, replaced), the log of the auditor and the records in it are as they
  were before the call.
\<close>

theorem getTraffic_returns_copy:
  assumes "traffic_ref w < fresh w" and "getTraffic w = (a, w')"
  shows "array_at w' a = traffic_log w
       \<and> a \<noteq> traffic_ref w'
       \<and> traffic_ref w' = traffic_ref w
       \<and> traffic_log w' = traffic_log w
       \<and> traffic_records w' = traffic_records w
       \<and> traffic_log (mutate_array a xs w') = traffic_log w
       \<and> traffic_records (mutate_array a xs w') = traffic_records w"
  using assms
  by (auto simp: getTraffic_def new_array_def traffic_log_def array_at_def
      mutate_array_def traffic_records_def records_at_def)

theorem getTraffic_returns_copy_witness:
  "traffic_ref (record_exchanges no_json exchanges_a registered_world)
     < fresh (record_exchanges no_json exchanges_a registered_world)
   \<and> getTraffic (record_exchanges no_json exchanges_a registered_world)
       = (fst (getTraffic (record_exchanges no_json exchanges_a registered_world)),
          snd (getTraffic (record_exchanges no_json exchanges_a registered_world)))
   \<and> traffic_records (mutate_array
         (fst (getTraffic (record_exchanges no_json exchanges_a registered_world))) []
         (snd (getTraffic (record_exchanges no_json exchanges_a registered_world))))
       = [get_x_200]"
proof -
  note e = record_exchanges_effect [OF wf_registered_world, of no_json exchanges_a]
  have wf: "traffic_ref (record_exchanges no_json exchanges_a registered_world)
              < fresh (record_exchanges no_json exchanges_a registered_world)"
    using e by (simp add: wf_world_def)
  have recs: "traffic_records (record_exchanges no_json exchanges_a registered_world)
                = [get_x_200]"
    using e
    by (simp add: traffic_records_alt traffic_log_registered_world exchanges_a_def
        get_x_200_def parseResponsePayload_def no_json_def)
  show ?thesis
    using wf getTraffic_returns_copy [OF wf prod.collapse [symmetric], of "[]"]
    by (simp add: recs)
qed

subsection \<open>writeTraffic for two suites\<close>

lemma traffic_path_inject:
  "traffic_path opts a = traffic_path opts b \<longleftrightarrow> a = b"
  by (simp add: traffic_path_def)

text \<open>One call on a log that is not empty, when the port does its work.\<close>

lemma writeTraffic_flaky_ok:
  assumes "fileOps opts = flaky_ops bad_dirs bad_files" and "traffic_log w \<noteq> []"
      and "trafficDir opts \<notin> set bad_dirs" and "traffic_path opts name \<notin> set bad_files"
  shows "writeTraffic opts name w =
     (Inr (),
      w\<lparr>storage := (storage w)
            \<lparr>files := map_set (traffic_path opts name) (TrafficJson (traffic_records w))
                        (files (storage w)),
             dirs := set_add (trafficDir opts) (dirs (storage w))\<rparr>,
        console := console w @ [Log (emoji_chart @ '' Traffic written: ''
                   @ traffic_path opts name
                   @ '' ('' @ show_nat (length (traffic_log w)) @ '' requests)'')],
        arrs := (arrs w)(fresh w \<mapsto> []),
        fresh := Suc (fresh w),
        traffic_ref := fresh w\<rparr>)"
  using assms
  by (simp add: writeTraffic_def try_catch_def writeTraffic_try_def bind_io_def on_storage_def
      flaky_ops_def mem_ops_def console_log_def new_array_def traffic_log_def
      traffic_records_def records_at_def array_at_def)

text \<open>
  One call whose directory cannot be created, and one whose file cannot be written: the
  assignment of the new empty array is not reached, and the \<^verbatim>\<open>catch\<close> block logs.
\<close>

lemma writeTraffic_flaky_mkdir_fails:
  assumes "fileOps opts = flaky_ops bad_dirs bad_files" and "traffic_log w \<noteq> []"
      and "trafficDir opts \<in> set bad_dirs"
  shows "writeTraffic opts name w =
     (Inr (),
      w\<lparr>console := console w @ [ErrorLine (''Failed to write traffic for '' @ name @ '':'')
          (IoError (''EACCES: permission denied, mkdir '' @ trafficDir opts))]\<rparr>)"
  using assms
  by (simp add: writeTraffic_def try_catch_def writeTraffic_try_def bind_io_def on_storage_def
      flaky_ops_def mem_ops_def console_error_def traffic_log_def array_at_def)

lemma writeTraffic_flaky_write_fails:
  assumes "fileOps opts = flaky_ops bad_dirs bad_files" and "traffic_log w \<noteq> []"
      and "trafficDir opts \<notin> set bad_dirs" and "traffic_path opts name \<in> set bad_files"
  shows "writeTraffic opts name w =
     (Inr (),
      w\<lparr>storage := (storage w)\<lparr>dirs := set_add (trafficDir opts) (dirs (storage w))\<rparr>,
        console := console w @ [ErrorLine (''Failed to write traffic for '' @ name @ '':'')
          (IoError (''EACCES: permission denied, open '' @ traffic_path opts name))]\<rparr>)"
  using assms
  by (simp add: writeTraffic_def try_catch_def writeTraffic_try_def bind_io_def on_storage_def
      flaky_ops_def mem_ops_def console_error_def traffic_log_def array_at_def)

lemma exchanges_a_records: "map (exchange_record no_json) exchanges_a = [get_x_200]"
  by (simp add: exchanges_a_def get_x_200_def parseResponsePayload_def no_json_def)

lemma exchanges_b_records: "map (exchange_record no_json) exchanges_b = [get_x_500]"
  by (simp add: exchanges_b_def get_x_500_def parseResponsePayload_def no_json_def)

lemma traffic_records_registered_world: "traffic_records registered_world = []"
  by (simp add: traffic_records_alt traffic_log_registered_world)

text \<open>
  C4 (as stated, refuted). The claim gives each of the two snapshot files exactly the
  records appended before its call, for every such sequence of calls. On a storage where
  the file of suite A cannot be written, one exchange is recorded and
  \<^verbatim>\<open>writeTraffic(suiteA)\<close> is called, then another exchange is recorded and
  \<^verbatim>\<open>writeTraffic(suiteB)\<close> is called. Both calls return normally. There is no file for
  suite A, and the file of suite B holds both records: the log is cleared after the write,
  inside the \<^verbatim>\<open>try\<close> block, so the failed call has kept it.
\<close>

theorem failed_write_keeps_the_log:
  "fst (writeTraffic (flaky_options [] [''./generated/traffic/suiteA.json'']) ''suiteA''
         (record_exchanges no_json exchanges_a registered_world)) = Inr ()
   \<and> fst (writeTraffic (flaky_options [] [''./generated/traffic/suiteA.json'']) ''suiteB''
         (record_exchanges no_json exchanges_b
           (snd (writeTraffic (flaky_options [] [''./generated/traffic/suiteA.json'']) ''suiteA''
             (record_exchanges no_json exchanges_a registered_world))))) = Inr ()
   \<and> files (storage
         (snd (writeTraffic (flaky_options [] [''./generated/traffic/suiteA.json'']) ''suiteB''
           (record_exchanges no_json exchanges_b
             (snd (writeTraffic (flaky_options [] [''./generated/traffic/suiteA.json''])
               ''suiteA'' (record_exchanges no_json exchanges_a registered_world)))))))
       = [(''./generated/traffic/suiteB.json'', TrafficJson [get_x_200, get_x_500])]"
proof -
  let ?opts = "flaky_options [] [''./generated/traffic/suiteA.json'']"
  let ?w1 = "record_exchanges no_json exchanges_a registered_world"
  let ?w2 = "snd (writeTraffic ?opts ''suiteA'' ?w1)"
  let ?w3 = "record_exchanges no_json exchanges_b ?w2"
  have ops: "fileOps ?opts = flaky_ops [] [''./generated/traffic/suiteA.json'']"
    by (simp add: flaky_options_def)
  have dir: "trafficDir ?opts \<notin> set []"
    by simp
  have pa: "traffic_path ?opts ''suiteA'' \<in> set [''./generated/traffic/suiteA.json'']"
    by (simp add: traffic_path_def flaky_options_def example_options_def)
  have pb: "traffic_path ?opts ''suiteB'' \<notin> set [''./generated/traffic/suiteA.json'']"
    by (simp add: traffic_path_def flaky_options_def example_options_def)
  note e1 = record_exchanges_effect [OF wf_registered_world, of no_json exchanges_a]
  have l1: "traffic_log ?w1 \<noteq> []"
    using e1 by (cases "traffic_log ?w1") (auto simp: exchanges_a_def)
  have r1: "traffic_records ?w1 = [get_x_200]"
    using e1 by (simp add: traffic_records_registered_world exchanges_a_records)
  have s1: "storage ?w1 = empty_store"
    using e1 by (simp add: registered_world_def registerPlugin_simps new_auditor_def)
  note wt2 = writeTraffic_flaky_write_fails [OF ops l1 dir pa]
  have res2: "fst (writeTraffic ?opts ''suiteA'' ?w1) = Inr ()"
    unfolding wt2 by simp
  have wf2: "wf_world ?w2"
    using e1 by (intro wf_writeTraffic) simp
  have r2: "traffic_records ?w2 = [get_x_200]"
    unfolding wt2 using r1 by (simp add: traffic_records_def records_at_def array_at_def)
  have f2: "files (storage ?w2) = []"
    unfolding wt2 by (simp add: s1 empty_store_def)
  have l2: "traffic_log ?w2 \<noteq> []"
    unfolding wt2 using l1 by (simp add: traffic_log_def array_at_def)
  note e3 = record_exchanges_effect [OF wf2, of no_json exchanges_b]
  have l3: "traffic_log ?w3 \<noteq> []"
    using e3 l2 by (cases "traffic_log ?w3") auto
  have r3: "traffic_records ?w3 = [get_x_200, get_x_500]"
    using e3 by (simp add: r2 exchanges_b_records)
  have f3: "files (storage ?w3) = []"
    using e3 f2 by simp
  note wt4 = writeTraffic_flaky_ok [OF ops l3 dir pb]
  have res4: "fst (writeTraffic ?opts ''suiteB'' ?w3) = Inr ()"
    unfolding wt4 by simp
  have path: "traffic_path ?opts ''suiteB'' = ''./generated/traffic/suiteB.json''"
    by (simp add: traffic_path_def flaky_options_def example_options_def)
  have f4: "files (storage (snd (writeTraffic ?opts ''suiteB'' ?w3)))
              = [(''./generated/traffic/suiteB.json'', TrafficJson [get_x_200, get_x_500])]"
    unfolding wt4 by (simp add: r3 f3 path)
  show ?thesis
    using res2 res4 f4 by simp
qed

text \<open>
  C4 (amended). The storage keeps what is written and may refuse to create some directories
  and to write some files. First part: starting from an empty log, exchanges \<open>xs\<close> are
  recorded, \<^verbatim>\<open>writeTraffic(suiteA)\<close> is called, exchanges \<open>ys\<close> are recorded,
  \<^verbatim>\<open>writeTraffic(suiteB)\<close> is called, with both lists non-empty and two different suite
  names, and the directory can be created and both files can be written. Then neither call
  throws; the two snapshot paths differ; after the first call the file of suite A holds
  exactly the records of \<open>xs\<close> and the log is empty; after the second call the file of
  suite A still holds exactly the records of \<open>xs\<close>, the file of suite B holds exactly the
  records of \<open>ys\<close>, and the log is empty. Second part: a call on a log that is not empty
  whose directory cannot be created or whose file cannot be written does not throw either;
  it writes no file, logs the failure with \<^verbatim>\<open>console.error\<close>, and leaves the log and its
  records as they were.
\<close>

theorem writeTraffic_two_suites:
  fixes w0 w :: "('v store, 'v) world"
  assumes ops: "fileOps opts = flaky_ops bad_dirs bad_files"
  shows "(wf_world w0 \<and> traffic_log w0 = [] \<and> xs \<noteq> [] \<and> ys \<noteq> [] \<and> suiteA \<noteq> suiteB
          \<and> trafficDir opts \<notin> set bad_dirs
          \<and> traffic_path opts suiteA \<notin> set bad_files
          \<and> traffic_path opts suiteB \<notin> set bad_files
          \<and> w1 = record_exchanges jp xs w0
          \<and> writeTraffic opts suiteA w1 = (res2, w2)
          \<and> w3 = record_exchanges jp ys w2
          \<and> writeTraffic opts suiteB w3 = (res4, w4)
          \<longrightarrow>
            res2 = Inr () \<and> res4 = Inr ()
          \<and> traffic_path opts suiteA \<noteq> traffic_path opts suiteB
          \<and> map_of (files (storage w2)) (traffic_path opts suiteA)
              = Some (TrafficJson (map (exchange_record jp) xs))
          \<and> traffic_log w2 = []
          \<and> map_of (files (storage w4)) (traffic_path opts suiteA)
              = Some (TrafficJson (map (exchange_record jp) xs))
          \<and> map_of (files (storage w4)) (traffic_path opts suiteB)
              = Some (TrafficJson (map (exchange_record jp) ys))
          \<and> traffic_log w4 = [])
       \<and> (traffic_log w \<noteq> []
          \<and> (trafficDir opts \<in> set bad_dirs \<or> traffic_path opts name \<in> set bad_files)
          \<longrightarrow>
            fst (writeTraffic opts name w) = Inr ()
          \<and> files (storage (snd (writeTraffic opts name w))) = files (storage w)
          \<and> traffic_log (snd (writeTraffic opts name w)) = traffic_log w
          \<and> traffic_records (snd (writeTraffic opts name w)) = traffic_records w
          \<and> (\<exists>e. console (snd (writeTraffic opts name w))
                  = console w @ [ErrorLine (''Failed to write traffic for '' @ name @ '':'') e]))"
proof (rule conjI; rule impI)
  assume "traffic_log w \<noteq> []
          \<and> (trafficDir opts \<in> set bad_dirs \<or> traffic_path opts name \<in> set bad_files)"
  then have l: "traffic_log w \<noteq> []"
    and bad: "trafficDir opts \<in> set bad_dirs \<or> traffic_path opts name \<in> set bad_files"
    by simp_all
  show "fst (writeTraffic opts name w) = Inr ()
          \<and> files (storage (snd (writeTraffic opts name w))) = files (storage w)
          \<and> traffic_log (snd (writeTraffic opts name w)) = traffic_log w
          \<and> traffic_records (snd (writeTraffic opts name w)) = traffic_records w
          \<and> (\<exists>e. console (snd (writeTraffic opts name w))
                  = console w @ [ErrorLine (''Failed to write traffic for '' @ name @ '':'') e])"
  proof (cases "trafficDir opts \<in> set bad_dirs")
    case True
    show ?thesis
      unfolding writeTraffic_flaky_mkdir_fails [OF ops l True]
      by (simp add: traffic_log_def traffic_records_def records_at_def array_at_def)
  next
    case False
    then have p: "traffic_path opts name \<in> set bad_files"
      using bad by simp
    show ?thesis
      unfolding writeTraffic_flaky_write_fails [OF ops l False p]
      by (simp add: traffic_log_def traffic_records_def records_at_def array_at_def)
  qed
next
  assume h: "wf_world w0 \<and> traffic_log w0 = [] \<and> xs \<noteq> [] \<and> ys \<noteq> [] \<and> suiteA \<noteq> suiteB
          \<and> trafficDir opts \<notin> set bad_dirs
          \<and> traffic_path opts suiteA \<notin> set bad_files
          \<and> traffic_path opts suiteB \<notin> set bad_files
          \<and> w1 = record_exchanges jp xs w0
          \<and> writeTraffic opts suiteA w1 = (res2, w2)
          \<and> w3 = record_exchanges jp ys w2
          \<and> writeTraffic opts suiteB w3 = (res4, w4)"
  then have wf: "wf_world w0" and empty: "traffic_log w0 = []"
    and xs: "xs \<noteq> []" and ys: "ys \<noteq> []" and names: "suiteA \<noteq> suiteB"
    and dir: "trafficDir opts \<notin> set bad_dirs"
    and pa: "traffic_path opts suiteA \<notin> set bad_files"
    and pb: "traffic_path opts suiteB \<notin> set bad_files"
    and w1: "w1 = record_exchanges jp xs w0"
    and w2: "writeTraffic opts suiteA w1 = (res2, w2)"
    and w3: "w3 = record_exchanges jp ys w2"
    and w4: "writeTraffic opts suiteB w3 = (res4, w4)"
    by blast+
  have recs0: "traffic_records w0 = []"
    using empty by (simp add: traffic_records_alt)
  note e1 = record_exchanges_effect [OF wf, of jp xs, folded w1]
  have r1: "traffic_records w1 = map (exchange_record jp) xs"
    using e1 recs0 by simp
  have l1: "traffic_log w1 \<noteq> []"
    using e1 xs empty by (cases "traffic_log w1") auto
  have wf1: "wf_world w1" using e1 by simp
  note wt2 = writeTraffic_flaky_ok [OF ops l1 dir pa]
  have res2: "res2 = Inr ()" using w2 wt2 by simp
  have w2_eq: "w2 = snd (writeTraffic opts suiteA w1)" using w2 by simp
  have log2: "traffic_log w2 = []"
    unfolding w2_eq wt2 by (simp add: traffic_log_def array_at_def)
  have recs2: "traffic_records w2 = []"
    using log2 by (simp add: traffic_records_alt)
  have files2: "map_of (files (storage w2)) (traffic_path opts suiteA)
           = Some (TrafficJson (map (exchange_record jp) xs))"
    unfolding w2_eq wt2 by (simp add: map_of_map_set r1)
  have wf2: "wf_world w2"
    using wf1 unfolding w2_eq wt2
    by (auto simp: wf_world_def traffic_log_def array_at_def less_Suc_eq)
  note e3 = record_exchanges_effect [OF wf2, of jp ys, folded w3]
  have r3: "traffic_records w3 = map (exchange_record jp) ys"
    using e3 recs2 by simp
  have l3: "traffic_log w3 \<noteq> []"
    using e3 ys log2 by (cases "traffic_log w3") auto
  have st3: "storage w3 = storage w2" using e3 by simp
  note wt4 = writeTraffic_flaky_ok [OF ops l3 dir pb]
  have res4: "res4 = Inr ()" using w4 wt4 by simp
  have w4_eq: "w4 = snd (writeTraffic opts suiteB w3)" using w4 by simp
  have log4: "traffic_log w4 = []"
    unfolding w4_eq wt4 by (simp add: traffic_log_def array_at_def)
  have ne: "traffic_path opts suiteA \<noteq> traffic_path opts suiteB"
    using names by (simp add: traffic_path_inject)
  have filesB: "map_of (files (storage w4)) (traffic_path opts suiteB)
           = Some (TrafficJson (map (exchange_record jp) ys))"
    unfolding w4_eq wt4 by (simp add: map_of_map_set r3)
  have filesA: "map_of (files (storage w4)) (traffic_path opts suiteA)
           = Some (TrafficJson (map (exchange_record jp) xs))"
    unfolding w4_eq wt4 using ne files2 by (simp add: map_of_map_set st3)
  show "res2 = Inr () \<and> res4 = Inr ()
          \<and> traffic_path opts suiteA \<noteq> traffic_path opts suiteB
          \<and> map_of (files (storage w2)) (traffic_path opts suiteA)
              = Some (TrafficJson (map (exchange_record jp) xs))
          \<and> traffic_log w2 = []
          \<and> map_of (files (storage w4)) (traffic_path opts suiteA)
              = Some (TrafficJson (map (exchange_record jp) xs))
          \<and> map_of (files (storage w4)) (traffic_path opts suiteB)
              = Some (TrafficJson (map (exchange_record jp) ys))
          \<and> traffic_log w4 = []"
    using res2 res4 ne files2 log2 filesA filesB log4 by simp
qed

theorem writeTraffic_two_suites_witness:
  "fileOps (flaky_options [] [''./generated/traffic/suiteC.json''])
     = flaky_ops [] [''./generated/traffic/suiteC.json'']
   \<and> wf_world registered_world
   \<and> traffic_log registered_world = []
   \<and> exchanges_a \<noteq> [] \<and> exchanges_b \<noteq> []
   \<and> ''suiteA'' \<noteq> ''suiteB''
   \<and> trafficDir (flaky_options [] [''./generated/traffic/suiteC.json'']) \<notin> set []
   \<and> traffic_path (flaky_options [] [''./generated/traffic/suiteC.json'']) ''suiteA''
       \<notin> set [''./generated/traffic/suiteC.json'']
   \<and> traffic_path (flaky_options [] [''./generated/traffic/suiteC.json'']) ''suiteB''
       \<notin> set [''./generated/traffic/suiteC.json'']
   \<and> map_of (files (storage
         (snd (writeTraffic (flaky_options [] [''./generated/traffic/suiteC.json'']) ''suiteB''
           (record_exchanges no_json exchanges_b
             (snd (writeTraffic (flaky_options [] [''./generated/traffic/suiteC.json''])
               ''suiteA'' (record_exchanges no_json exchanges_a registered_world))))))))
         ''./generated/traffic/suiteA.json''
       = Some (TrafficJson [get_x_200])
   \<and> map_of (files (storage
         (snd (writeTraffic (flaky_options [] [''./generated/traffic/suiteC.json'']) ''suiteB''
           (record_exchanges no_json exchanges_b
             (snd (writeTraffic (flaky_options [] [''./generated/traffic/suiteC.json''])
               ''suiteA'' (record_exchanges no_json exchanges_a registered_world))))))))
         ''./generated/traffic/suiteB.json''
       = Some (TrafficJson [get_x_500])
   \<and> traffic_log (record_exchanges no_json exchanges_a registered_world) \<noteq> []
   \<and> traffic_path (flaky_options [] [''./generated/traffic/suiteC.json'']) ''suiteC''
       \<in> set [''./generated/traffic/suiteC.json'']
   \<and> files (storage
         (snd (writeTraffic (flaky_options [] [''./generated/traffic/suiteC.json'']) ''suiteC''
           (record_exchanges no_json exchanges_a registered_world)))) = []
   \<and> traffic_records
         (snd (writeTraffic (flaky_options [] [''./generated/traffic/suiteC.json'']) ''suiteC''
           (record_exchanges no_json exchanges_a registered_world))) = [get_x_200]"
proof -
  let ?opts = "flaky_options [] [''./generated/traffic/suiteC.json'']"
  let ?w1 = "record_exchanges no_json exchanges_a registered_world"
  have ops: "fileOps ?opts = flaky_ops [] [''./generated/traffic/suiteC.json'']"
    by (simp add: flaky_options_def)
  have h4: "exchanges_a \<noteq> []" by (simp add: exchanges_a_def)
  have h5: "exchanges_b \<noteq> []" by (simp add: exchanges_b_def)
  have h6: "''suiteA'' \<noteq> ''suiteB''" by simp
  have dir: "trafficDir ?opts \<notin> set []" by simp
  have pathA: "traffic_path ?opts ''suiteA'' = ''./generated/traffic/suiteA.json''"
    by (simp add: traffic_path_def flaky_options_def example_options_def)
  have pathB: "traffic_path ?opts ''suiteB'' = ''./generated/traffic/suiteB.json''"
    by (simp add: traffic_path_def flaky_options_def example_options_def)
  have pathC: "traffic_path ?opts ''suiteC'' = ''./generated/traffic/suiteC.json''"
    by (simp add: traffic_path_def flaky_options_def example_options_def)
  have pa: "traffic_path ?opts ''suiteA'' \<notin> set [''./generated/traffic/suiteC.json'']"
    unfolding pathA by simp
  have pb: "traffic_path ?opts ''suiteB'' \<notin> set [''./generated/traffic/suiteC.json'']"
    unfolding pathB by simp
  have pc: "traffic_path ?opts ''suiteC'' \<in> set [''./generated/traffic/suiteC.json'']"
    unfolding pathC by simp
  note e1 = record_exchanges_effect [OF wf_registered_world, of no_json exchanges_a]
  have l1: "traffic_log ?w1 \<noteq> []"
    using e1 by (cases "traffic_log ?w1") (auto simp: exchanges_a_def)
  have r1: "traffic_records ?w1 = [get_x_200]"
    using e1 by (simp add: traffic_records_registered_world exchanges_a_records)
  have s1: "files (storage ?w1) = []"
    using e1 by (simp add: registered_world_def registerPlugin_simps new_auditor_def
          empty_store_def)
  note t = writeTraffic_two_suites [OF ops, where ?w0.0 = registered_world
      and xs = exchanges_a and ys = exchanges_b and suiteA = "''suiteA''"
      and suiteB = "''suiteB''" and jp = no_json and ?w1.0 = ?w1
      and ?w2.0 = "snd (writeTraffic ?opts ''suiteA'' ?w1)"
      and ?res2.0 = "fst (writeTraffic ?opts ''suiteA'' ?w1)"
      and ?w3.0 = "record_exchanges no_json exchanges_b
                     (snd (writeTraffic ?opts ''suiteA'' ?w1))"
      and ?w4.0 = "snd (writeTraffic ?opts ''suiteB''
                     (record_exchanges no_json exchanges_b
                       (snd (writeTraffic ?opts ''suiteA'' ?w1))))"
      and ?res4.0 = "fst (writeTraffic ?opts ''suiteB''
                     (record_exchanges no_json exchanges_b
                       (snd (writeTraffic ?opts ''suiteA'' ?w1))))"
      and w = ?w1 and name = "''suiteC''"]
  have first: "map_of (files (storage
         (snd (writeTraffic ?opts ''suiteB''
           (record_exchanges no_json exchanges_b
             (snd (writeTraffic ?opts ''suiteA'' ?w1)))))))
         ''./generated/traffic/suiteA.json''
       = Some (TrafficJson [get_x_200])
     \<and> map_of (files (storage
         (snd (writeTraffic ?opts ''suiteB''
           (record_exchanges no_json exchanges_b
             (snd (writeTraffic ?opts ''suiteA'' ?w1)))))))
         ''./generated/traffic/suiteB.json''
       = Some (TrafficJson [get_x_500])"
    using t wf_registered_world traffic_log_registered_world h4 h5 h6 dir pa pb
    unfolding pathA pathB exchanges_a_records exchanges_b_records
    by simp
  have second: "files (storage (snd (writeTraffic ?opts ''suiteC'' ?w1))) = []
     \<and> traffic_records (snd (writeTraffic ?opts ''suiteC'' ?w1)) = [get_x_200]"
    using t l1 pc unfolding r1 s1 by simp
  show ?thesis
    using ops wf_registered_world traffic_log_registered_world h4 h5 h6 dir pa pb l1 pc
      first second
    by simp
qed

section \<open>The path matcher against its description\<close>

subsection \<open>split and join\<close>

lemma split_on_nonempty: "split_on d s \<noteq> []"
  by (induction s) (auto split: list.splits)

lemma split_on_no_sep: "x \<in> set (split_on d s) \<Longrightarrow> d \<notin> set x"
  by (induction s arbitrary: x) (auto split: if_splits list.splits)

lemma split_on_single: "d \<notin> set x \<Longrightarrow> split_on d x = [x]"
  by (induction x) auto

lemma split_on_append: "d \<notin> set x \<Longrightarrow> split_on d (x @ d # c) = x # split_on d c"
  by (induction x) auto

lemma split_on_cases:
  "split_on d c = x # rest \<Longrightarrow>
     d \<notin> set x \<and> ((rest = [] \<and> c = x) \<or> (\<exists>c'. c = x @ d # c' \<and> rest = split_on d c'))"
proof (induction c arbitrary: x rest)
  case Nil
  then show ?case by simp
next
  case (Cons a c)
  show ?case
  proof (cases "a = d")
    case True
    with Cons.prems show ?thesis by auto
  next
    case False
    obtain y ys where s: "split_on d c = y # ys"
      using split_on_nonempty [of d c] by (cases "split_on d c") auto
    with Cons.prems False have x: "x = a # y" and r: "rest = ys" by auto
    from Cons.IH [OF s] False show ?thesis
      by (auto simp: x r)
  qed
qed

lemma join_split: "join [d] (split_on d s) = s"
proof (induction s)
  case Nil
  then show ?case by simp
next
  case (Cons a s)
  obtain y ys where s: "split_on d s = y # ys"
    using split_on_nonempty [of d s] by (cases "split_on d s") auto
  show ?case
    using Cons s by (cases ys) auto
qed

subsection \<open>Placeholders and plain segments\<close>

lemma placeholder_shape:
  assumes "spec_is_placeholder seg"
  obtains body where "seg = CHR ''{'' # body @ ''}''" "body \<noteq> []"
    "CHR ''}'' \<notin> set body" "CHR ''{'' \<notin> set body"
proof -
  from assms obtain rest where seg: "seg = CHR ''{'' # rest" and ne: "rest \<noteq> []"
    and l: "last rest = CHR ''}''" and b: "butlast rest \<noteq> []"
    and a: "list_all (\<lambda>d. d \<noteq> CHR ''{'' \<and> d \<noteq> CHR ''}'') (butlast rest)"
    by (auto simp: spec_is_placeholder_def split: list.splits)
  have "rest = butlast rest @ ''}''"
    using ne l append_butlast_last_id [of rest] by simp
  with seg b a show ?thesis
    by (intro that [of "butlast rest"]) (auto simp: list_all_iff)
qed

lemma plain_not_placeholder: "plain_segment seg \<Longrightarrow> \<not> spec_is_placeholder seg"
  by (auto simp: plain_segment_def spec_is_placeholder_def regex_syntax_chars_def
      split: list.splits)

subsection \<open>The replacement on a plain template\<close>

lemma replace_plain:
  "plain_segment lit \<Longrightarrow> replace_placeholders (lit @ rest) = lit @ replace_placeholders rest"
proof (induction lit)
  case Nil
  then show ?case by simp
next
  case (Cons c lit)
  then have "c \<noteq> CHR ''{''" and "plain_segment lit"
    by (auto simp: plain_segment_def regex_syntax_chars_def)
  with Cons.IH show ?case by simp
qed

lemma replace_placeholder:
  assumes "spec_is_placeholder seg"
  shows "replace_placeholders (seg @ rest) = ''[^/]+'' @ replace_placeholders rest"
proof -
  obtain body where seg: "seg = CHR ''{'' # body @ ''}''" and ne: "body \<noteq> []"
    and nb: "CHR ''}'' \<notin> set body"
    using assms by (rule placeholder_shape)
  have t: "takeWhile (\<lambda>d. d \<noteq> CHR ''}'') (body @ CHR ''}'' # rest) = body"
    using nb by (induction body) auto
  have d: "dropWhile (\<lambda>d. d \<noteq> CHR ''}'') (body @ CHR ''}'' # rest) = CHR ''}'' # rest"
    using nb by (induction body) auto
  show ?thesis
    using ne by (simp add: seg t d)
qed

lemma replace_seg:
  "spec_is_placeholder seg \<or> plain_segment seg \<Longrightarrow>
     replace_placeholders (seg @ rest) = seg_pat seg @ replace_placeholders rest"
  using replace_plain [of seg rest] replace_placeholder [of seg rest]
  by (auto simp: seg_pat_def)

lemma replace_slash:
  "replace_placeholders (CHR ''/'' # rest) = CHR ''/'' # replace_placeholders rest"
  by simp

lemma replace_join:
  "list_all (\<lambda>seg. spec_is_placeholder seg \<or> plain_segment seg) segs \<Longrightarrow>
     replace_placeholders (join ''/'' segs) = join ''/'' (map seg_pat segs)"
proof (induction "''/''" segs rule: join.induct)
  case 1
  then show ?case by simp
next
  case (2 s)
  then show ?case
    using replace_seg [of s "[]"] by simp
next
  case (3 s t ss)
  then show ?case
    using replace_seg [of s "CHR ''/'' # join ''/'' (t # ss)"]
    by (simp del: replace_placeholders.simps add: replace_slash)
qed

subsection \<open>Parsing the pattern of a plain template\<close>

lemma parse_plain:
  "plain_segment lit \<Longrightarrow> parse_rx (lit @ rest) = map_option ((@) (map RLit lit)) (parse_rx rest)"
proof (induction lit)
  case Nil
  then show ?case by (simp add: option.map_ident)
next
  case (Cons c lit)
  then have c: "c \<noteq> CHR ''[''" "c \<noteq> CHR ''.''" "c \<notin> set regex_syntax_chars"
    and "plain_segment lit"
    by (auto simp: plain_segment_def regex_syntax_chars_def)
  with Cons.IH show ?case
    by (simp add: option.map_comp comp_def)
qed

lemma parse_group:
  "parse_rx (''[^/]+'' @ rest) = map_option (Cons RNotSlashPlus) (parse_rx rest)"
  by simp

lemma parse_slash:
  "parse_rx (CHR ''/'' # rest) = map_option (Cons (RLit (CHR ''/''))) (parse_rx rest)"
  by (simp add: regex_syntax_chars_def)

lemma parse_seg:
  "spec_is_placeholder seg \<or> plain_segment seg \<Longrightarrow>
     parse_rx (seg_pat seg @ rest) = map_option ((@) (seg_rx seg)) (parse_rx rest)"
proof -
  have "(@) [RNotSlashPlus] = (#) RNotSlashPlus"
    by (simp add: fun_eq_iff)
  then show "spec_is_placeholder seg \<or> plain_segment seg \<Longrightarrow>
     parse_rx (seg_pat seg @ rest) = map_option ((@) (seg_rx seg)) (parse_rx rest)"
    using parse_plain [of seg rest] parse_group [of rest] plain_not_placeholder [of seg]
    by (auto simp: seg_pat_def seg_rx_def simp del: parse_rx.simps)
qed

lemma parse_join:
  "list_all (\<lambda>seg. spec_is_placeholder seg \<or> plain_segment seg) segs \<Longrightarrow>
     parse_rx (join ''/'' (map seg_pat segs)) = Some (segs_rx segs)"
proof (induction segs rule: segs_rx.induct)
  case 1
  then show ?case by simp
next
  case (2 s)
  then show ?case
    using parse_seg [of s "[]"] by simp
next
  case (3 s t ss)
  then show ?case
    using parse_seg [of s "CHR ''/'' # join ''/'' (map seg_pat (t # ss))"]
    by (simp del: parse_rx.simps add: parse_slash)
qed

subsection \<open>Matching the pattern of a plain template\<close>

lemma match_literal:
  "rx_match (map RLit lit @ r) c \<longleftrightarrow> (\<exists>c'. c = lit @ c' \<and> rx_match r c')"
proof (induction lit arbitrary: c)
  case Nil
  then show ?case by simp
next
  case (Cons a lit)
  then show ?case by (cases c) auto
qed

lemma match_group:
  "rx_match (RNotSlashPlus # r) c \<longleftrightarrow>
     (\<exists>x c'. c = x @ c' \<and> x \<noteq> [] \<and> CHR ''/'' \<notin> set x \<and> rx_match r c')"
proof (induction c)
  case Nil
  then show ?case by simp
next
  case (Cons d ds)
  show ?case
  proof
    assume "rx_match (RNotSlashPlus # r) (d # ds)"
    then have d: "d \<noteq> CHR ''/''" and m: "rx_match r ds \<or> rx_match (RNotSlashPlus # r) ds"
      by auto
    from m show "\<exists>x c'. d # ds = x @ c' \<and> x \<noteq> [] \<and> CHR ''/'' \<notin> set x \<and> rx_match r c'"
    proof
      assume "rx_match r ds"
      with d show ?thesis by (intro exI [of _ "[d]"] exI [of _ ds]) simp
    next
      assume "rx_match (RNotSlashPlus # r) ds"
      with Cons.IH obtain x c' where "ds = x @ c'" "x \<noteq> []" "CHR ''/'' \<notin> set x" "rx_match r c'"
        by blast
      with d show ?thesis by (intro exI [of _ "d # x"] exI [of _ c']) simp
    qed
  next
    assume "\<exists>x c'. d # ds = x @ c' \<and> x \<noteq> [] \<and> CHR ''/'' \<notin> set x \<and> rx_match r c'"
    then obtain x c' where e: "d # ds = x @ c'" and ne: "x \<noteq> []"
      and ns: "CHR ''/'' \<notin> set x" and m: "rx_match r c'"
      by blast
    from e ne obtain x' where x: "x = d # x'" and ds: "ds = x' @ c'"
      by (cases x) auto
    show "rx_match (RNotSlashPlus # r) (d # ds)"
    proof (cases "x' = []")
      case True
      with x ds ns m show ?thesis by simp
    next
      case False
      with Cons.IH ds ns m x have "rx_match (RNotSlashPlus # r) ds" by auto
      with x ns show ?thesis by auto
    qed
  qed
qed

lemma rx_match_Nil: "rx_match [] c \<longleftrightarrow> c = []"
  by (cases c) simp_all

lemma rx_match_slash:
  "rx_match (RLit (CHR ''/'') # r) c \<longleftrightarrow> (\<exists>c'. c = CHR ''/'' # c' \<and> rx_match r c')"
  by (cases c) auto

lemma seg_match_last:
  assumes "spec_is_placeholder s \<or> plain_segment s" and "CHR ''/'' \<notin> set s"
  shows "rx_match (seg_rx s) c \<longleftrightarrow> CHR ''/'' \<notin> set c \<and> spec_segment_matches s c"
proof (cases "spec_is_placeholder s")
  case True
  then show ?thesis
    using match_group [of "[]" c]
    by (auto simp: seg_rx_def spec_segment_matches_def rx_match_Nil)
next
  case False
  then show ?thesis
    using match_literal [of s "[]" c] assms(2)
    by (auto simp: seg_rx_def spec_segment_matches_def rx_match_Nil)
qed

lemma seg_match_step:
  assumes "spec_is_placeholder s \<or> plain_segment s" and "CHR ''/'' \<notin> set s"
  shows "rx_match (seg_rx s @ RLit (CHR ''/'') # r) c \<longleftrightarrow>
           (\<exists>x c'. c = x @ CHR ''/'' # c' \<and> CHR ''/'' \<notin> set x
                    \<and> spec_segment_matches s x \<and> rx_match r c')"
proof (cases "spec_is_placeholder s")
  case True
  then show ?thesis
    using match_group [of "RLit (CHR ''/'') # r" c]
    by (simp add: seg_rx_def spec_segment_matches_def rx_match_slash) blast
next
  case False
  then show ?thesis
    using match_literal [of s "RLit (CHR ''/'') # r" c] assms(2)
    by (simp add: seg_rx_def spec_segment_matches_def rx_match_slash) blast
qed

lemma list_all2_split_last:
  "list_all2 P [s] (split_on d c) \<longleftrightarrow> d \<notin> set c \<and> P s c"
proof
  assume "list_all2 P [s] (split_on d c)"
  then obtain x where x: "split_on d c = [x]" and p: "P s x"
    by (auto simp: list_all2_Cons1)
  from split_on_cases [OF x] p split_on_nonempty [of d] show "d \<notin> set c \<and> P s c"
    by (metis (full_types))
next
  assume "d \<notin> set c \<and> P s c"
  then show "list_all2 P [s] (split_on d c)"
    by (simp add: split_on_single)
qed

lemma list_all2_split_step:
  "list_all2 P (s # t # ss) (split_on d c) \<longleftrightarrow>
     (\<exists>x c'. c = x @ d # c' \<and> d \<notin> set x \<and> P s x \<and> list_all2 P (t # ss) (split_on d c'))"
proof
  assume "list_all2 P (s # t # ss) (split_on d c)"
  then obtain x rest where x: "split_on d c = x # rest" and p: "P s x"
    and r: "list_all2 P (t # ss) rest"
    by (auto simp: list_all2_Cons1)
  from r have "rest \<noteq> []" by auto
  with split_on_cases [OF x] obtain c' where "c = x @ d # c'" "rest = split_on d c'" "d \<notin> set x"
    by auto
  with p r show "\<exists>x c'. c = x @ d # c' \<and> d \<notin> set x \<and> P s x
                    \<and> list_all2 P (t # ss) (split_on d c')"
    by blast
next
  assume "\<exists>x c'. c = x @ d # c' \<and> d \<notin> set x \<and> P s x \<and> list_all2 P (t # ss) (split_on d c')"
  then show "list_all2 P (s # t # ss) (split_on d c)"
    by (auto simp: split_on_append)
qed

lemma segs_match:
  assumes "segs \<noteq> []"
      and "\<forall>s \<in> set segs. (spec_is_placeholder s \<or> plain_segment s) \<and> CHR ''/'' \<notin> set s"
  shows "rx_match (segs_rx segs) c
           \<longleftrightarrow> list_all2 spec_segment_matches segs (split_on (CHR ''/'') c)"
  using assms
proof (induction segs arbitrary: c rule: segs_rx.induct)
  case 1
  then show ?case by simp
next
  case (2 s)
  then show ?case
    by (simp add: seg_match_last list_all2_split_last)
next
  case (3 s t ss)
  have ih: "rx_match (segs_rx (t # ss)) c'
              \<longleftrightarrow> list_all2 spec_segment_matches (t # ss) (split_on (CHR ''/'') c')" for c'
    using 3 by simp
  have s: "spec_is_placeholder s \<or> plain_segment s" "CHR ''/'' \<notin> set s"
    using 3 by simp_all
  show ?case
    by (simp add: seg_match_step [OF s] list_all2_split_step ih del: list_all2_Cons1)
qed

subsection \<open>The matcher on plain templates\<close>

lemma plain_template_pattern:
  assumes "plain_template t"
  shows "parse_rx (replace_placeholders t) = Some (segs_rx (split_on (CHR ''/'') t))"
    and "rx_match (segs_rx (split_on (CHR ''/'') t)) c \<longleftrightarrow> spec_template_matches t c"
proof -
  let ?segs = "split_on (CHR ''/'') t"
  have all: "list_all (\<lambda>seg. spec_is_placeholder seg \<or> plain_segment seg) ?segs"
    using assms by (simp add: plain_template_def)
  have t: "join ''/'' ?segs = t"
    by (rule join_split)
  show "parse_rx (replace_placeholders t) = Some (segs_rx ?segs)"
    using replace_join [OF all] parse_join [OF all] by (simp add: t)
  have "\<forall>s \<in> set ?segs. (spec_is_placeholder s \<or> plain_segment s) \<and> CHR ''/'' \<notin> set s"
    using all split_on_no_sep [of _ "CHR ''/''" t] by (auto simp: list_all_iff)
  then show "rx_match (segs_rx ?segs) c \<longleftrightarrow> spec_template_matches t c"
    using segs_match [OF split_on_nonempty, of "CHR ''/''" t c]
    by (simp add: spec_template_matches_def)
qed

lemma fragment_regexp_pattern:
  "fragment_regexp other (CHR ''^'' # pattern @ ''$'') input
     = (case parse_rx pattern of
          Some r \<Rightarrow> Inr (rx_match r input)
        | None \<Rightarrow> other (CHR ''^'' # pattern @ ''$'') input)"
  by (cases "parse_rx pattern") (simp_all add: fragment_regexp_def)

lemma match_templates_plain:
  "list_all plain_template ks \<Longrightarrow>
     match_templates (fragment_regexp other) c ks
       = Inr (find (\<lambda>t. spec_template_matches t c) ks)"
  by (induction ks) (simp_all add: plain_template_pattern fragment_regexp_pattern)

text \<open>
  On plain templates (each segment is a placeholder \<^verbatim>\<open>{name}\<close> or is free of
  regular-expression syntax characters) the regular expression does what the description
  says, for every engine that is right on the fragment and every cleaned path that is not
  the name of a member of \<^verbatim>\<open>Object.prototype\<close>.
\<close>

lemma normalizePathForSchema_plain_templates:
  assumes "list_all plain_template (map fst ps)"
      and "strip_query u \<notin> set object_prototype_keys"
  shows "normalizePathForSchema (fragment_regexp other) u ps = Inr (spec_match u ps)"
  using assms match_templates_plain [of "map fst ps" other "strip_query u"]
  by (simp add: normalizePathForSchema_def spec_match_def truthy_property_def Let_def)

lemma normalizePathForSchema_items:
  "normalizePathForSchema (fragment_regexp other) ''/items/42?x=1'' spec_items
     = Inr (Some ''/items/{id}'')"
proof -
  have h1: "list_all plain_template (map fst spec_items)"
    by (simp add: spec_items_def plain_template_def plain_segment_def spec_is_placeholder_def
        regex_syntax_chars_def)
  have h2: "strip_query ''/items/42?x=1'' \<notin> set object_prototype_keys"
    by (simp add: strip_query_def object_prototype_keys_def)
  have s: "spec_match ''/items/42?x=1'' spec_items = Some ''/items/{id}''"
    by (simp add: spec_match_def strip_query_def spec_items_def spec_template_matches_def
        spec_segment_matches_def spec_is_placeholder_def)
  show ?thesis
    using normalizePathForSchema_plain_templates [OF h1 h2, of other] by (simp add: s)
qed

text \<open>
  C3 (the code at the failing input). The claim lets a template match only when each of
  its segments that is no placeholder equals the concrete segment. The template
  \<^verbatim>\<open>/a.b\<close> has no placeholder and differs from \<^verbatim>\<open>/axb\<close>, so the described matcher
  returns none. The code, whose comment says that it matches parameterized paths, puts the
  text of the template into a regular expression without escaping it: the pattern is
  \<^verbatim>\<open>^/a.b$\<close>, its dot matches the \<^verbatim>\<open>x\<close>, and the template is returned. The pattern
  lies in the fragment, so this holds for every engine that is right on the fragment.
\<close>

theorem dot_matches_any_character:
  "replace_placeholders ''/a.b'' = ''/a.b''
   \<and> normalizePathForSchema (fragment_regexp other) ''/axb'' spec_dot = Inr (Some ''/a.b'')
   \<and> spec_match ''/axb'' spec_dot = None"
  by (simp add: normalizePathForSchema_def spec_match_def strip_query_def truthy_property_def
      object_prototype_keys_def spec_dot_def line_terminator_def spec_template_matches_def
      spec_segment_matches_def spec_is_placeholder_def regex_syntax_chars_def
      fragment_regexp_def)

section \<open>Failures during cleanup and teardown\<close>

lemma remove_files_console:
  "console (snd (remove_files rm fs w)) = console w"
proof (induction fs arbitrary: w)
  case Nil
  then show ?case by simp
next
  case (Cons f fs)
  show ?case
  proof (cases "rm f (storage w)")
    case (Pair res st)
    then show ?thesis
      using Cons [of "w\<lparr>storage := st\<rparr>"]
      by (cases res) (simp_all add: on_storage_def)
  qed
qed

lemma safeGlob_result:
  "\<exists>fs st. safeGlob opts pattern w = (Inr fs, w\<lparr>storage := st\<rparr>)"
proof (cases "glob (fileOps opts) pattern (storage w)")
  case (Pair res st)
  then show ?thesis
    by (cases res) (auto simp: safeGlob_def try_catch_def on_storage_def return_io_def)
qed

lemma clearGeneratedDirectory_try_console:
  "filter is_error_line (console (snd (clearGeneratedDirectory_try opts w)))
     = filter is_error_line (console w)"
proof -
  let ?dir = "getDir (schemaPath opts)"
  obtain f1 st1 where g1: "safeGlob opts (?dir @ ''/*.json'') w = (Inr f1, w\<lparr>storage := st1\<rparr>)"
    using safeGlob_result [of opts "?dir @ ''/*.json''" w] by auto
  obtain f2 st2 where g2: "safeGlob opts (trafficDir opts @ ''/*.json'') (w\<lparr>storage := st1\<rparr>)
      = (Inr f2, w\<lparr>storage := st2\<rparr>)"
    using safeGlob_result [of opts "trafficDir opts @ ''/*.json''" "w\<lparr>storage := st1\<rparr>"] by auto
  obtain f3 st3 where g3: "safeGlob opts (?dir @ ''/*.md'') (w\<lparr>storage := st2\<rparr>)
      = (Inr f3, w\<lparr>storage := st3\<rparr>)"
    using safeGlob_result [of opts "?dir @ ''/*.md''" "w\<lparr>storage := st2\<rparr>"] by auto
  show ?thesis
    by (simp add: clearGeneratedDirectory_try_def Let_def bind_io_def g1 g2 g3 console_log_def
        return_io_def remove_files_console split: option.splits)
qed

lemma clearGeneratedDirectory_silent:
  "fst (clearGeneratedDirectory opts w) = Inr ()
   \<and> filter is_error_line (console (snd (clearGeneratedDirectory opts w)))
       = filter is_error_line (console w)"
proof (cases "clearGeneratedDirectory_try opts w")
  case (Pair res w')
  then show ?thesis
    using clearGeneratedDirectory_try_console [of opts w]
    by (cases res) (simp_all add: clearGeneratedDirectory_def try_catch_def return_io_def)
qed

lemma teardown_unfold:
  "teardown re opts now w =
     (case teardown_write_traffic opts (teardown_started w) of
        (Inl e, w') \<Rightarrow>
          (Inr (), w'\<lparr>console := console w'
             @ [ErrorLine teardown_failed e, Log teardown_completed]\<rparr>)
      | (Inr u, w1) \<Rightarrow>
          (case teardown_write_report re opts now w1 of
             (Inl e, w') \<Rightarrow>
               (Inr (), w'\<lparr>console := console w'
                  @ [ErrorLine teardown_failed e, Log teardown_completed]\<rparr>)
           | (Inr u', w') \<Rightarrow>
               (Inr (), w'\<lparr>console := console w' @ [Log teardown_completed]\<rparr>)))"
proof -
  let ?w0 = "w\<lparr>console := console w
               @ [Log (emoji_chart @ '' Global teardown: Starting OpenAPI traffic audit...'')]\<rparr>"
  have l0: "traffic_log ?w0 = traffic_log w"
    by (simp add: traffic_log_def array_at_def)
  obtain r1 w1 where a: "teardown_write_traffic opts (teardown_started w) = (r1, w1)"
    by fastforce
  obtain r2 w2 where b: "teardown_write_report re opts now w1 = (r2, w2)"
    by fastforce
  have tt: "teardown_try re opts now ?w0
               = (case r1 of Inl e \<Rightarrow> (Inl e, w1) | Inr u \<Rightarrow> (r2, w2))"
    using a b
    by (simp add: teardown_try_def bind_io_def console_log_def l0
          teardown_started_def [symmetric] split: sum.splits)
  have "teardown re opts now w
          = (case teardown_try re opts now ?w0 of
               (Inl e, w') \<Rightarrow>
                 (Inr (), w'\<lparr>console := console w'
                    @ [ErrorLine teardown_failed e, Log teardown_completed]\<rparr>)
             | (Inr u, w') \<Rightarrow>
                 (Inr (), w'\<lparr>console := console w' @ [Log teardown_completed]\<rparr>))"
    by (simp add: teardown_def bind_io_def try_catch_def console_log_def console_error_def
          teardown_completed_def split: prod.splits sum.splits)
  then show ?thesis
    unfolding tt a by (cases r1; cases r2) (simp_all add: b)
qed

lemma teardown_never_throws: "fst (teardown re opts now w) = Inr ()"
  by (simp add: teardown_unfold split: prod.splits sum.splits)

lemma traffic_log_teardown_started: "traffic_log (teardown_started w) = traffic_log w"
  by (simp add: teardown_started_def traffic_log_def array_at_def)

lemma storage_teardown_started: "storage (teardown_started w) = storage w"
  by (simp add: teardown_started_def)

text \<open>The snapshot of the log cannot be written.\<close>

lemma teardown_snapshot_mkdir_fails:
  assumes "traffic_log w \<noteq> []"
      and "mkdir (fileOps opts) (trafficDir opts) (storage w) = (Inl e, st)"
  shows "teardown re opts now w =
           (Inr (), (teardown_started w)
              \<lparr>storage := st,
               console := console (teardown_started w)
                 @ [ErrorLine teardown_failed e, Log teardown_completed]\<rparr>)"
proof -
  have "teardown_write_traffic opts (teardown_started w)
          = (Inl e, (teardown_started w)\<lparr>storage := st\<rparr>)"
    using assms
    by (simp add: teardown_write_traffic_def traffic_log_teardown_started bind_io_def
          on_storage_def storage_teardown_started)
  then show ?thesis
    by (simp add: teardown_unfold)
qed

lemma teardown_snapshot_write_fails:
  assumes "traffic_log w \<noteq> []"
      and "mkdir (fileOps opts) (trafficDir opts) (storage w) = (Inr (), st1)"
      and "writeFile (fileOps opts) (trafficDir opts @ ''/integration-tests-traffic.json'')
             (TrafficJson (traffic_records w)) st1 = (Inl e, st2)"
  shows "teardown re opts now w =
           (Inr (), (teardown_started w)
              \<lparr>storage := st2,
               console := console (teardown_started w)
                 @ [ErrorLine teardown_failed e, Log teardown_completed]\<rparr>)"
proof -
  have r: "traffic_records ((teardown_started w)\<lparr>storage := st1\<rparr>) = traffic_records w"
    by (simp add: teardown_started_def traffic_records_def records_at_def array_at_def)
  have "teardown_write_traffic opts (teardown_started w)
          = (Inl e, (teardown_started w)\<lparr>storage := st2\<rparr>)"
    using assms
    by (simp add: teardown_write_traffic_def traffic_log_teardown_started bind_io_def
          on_storage_def storage_teardown_started r)
  then show ?thesis
    by (simp add: teardown_unfold)
qed

text \<open>The report cannot be generated, or cannot be written.\<close>

lemma teardown_report_fails:
  assumes "teardown_write_traffic opts (teardown_started w) = (Inr (), w1)"
      and "generateAuditReport re opts now w1 = (Inl e, w2)"
  shows "teardown re opts now w =
           (Inr (), w2\<lparr>console := console w2
              @ [ErrorLine teardown_failed e, Log teardown_completed]\<rparr>)"
  using assms by (simp add: teardown_unfold teardown_write_report_def bind_io_def)

lemma teardown_report_mkdir_fails:
  assumes "teardown_write_traffic opts (teardown_started w) = (Inr (), w1)"
      and "generateAuditReport re opts now w1 = (Inr report, w2)"
      and "mkdir (fileOps opts) (getDir (reportPath opts)) (storage w2) = (Inl e, st)"
  shows "teardown re opts now w =
           (Inr (), w2\<lparr>storage := st,
                      console := console w2
                        @ [ErrorLine teardown_failed e, Log teardown_completed]\<rparr>)"
  using assms
  by (simp add: teardown_unfold teardown_write_report_def bind_io_def on_storage_def)

lemma teardown_report_write_fails:
  assumes "teardown_write_traffic opts (teardown_started w) = (Inr (), w1)"
      and "generateAuditReport re opts now w1 = (Inr report, w2)"
      and "mkdir (fileOps opts) (getDir (reportPath opts)) (storage w2) = (Inr (), st1)"
      and "writeFile (fileOps opts) (reportPath opts) (PlainText report) st1 = (Inl e, st2)"
  shows "teardown re opts now w =
           (Inr (), w2\<lparr>storage := st2,
                      console := console w2
                        @ [ErrorLine teardown_failed e, Log teardown_completed]\<rparr>)"
  using assms
  by (simp add: teardown_unfold teardown_write_report_def bind_io_def on_storage_def)

lemma generateAuditReport_spec_missing:
  "readFile (fileOps opts) (schemaPath opts) (storage w) = (Inl e, st)
     \<Longrightarrow> generateAuditReport re opts now w = (Inl e, w\<lparr>storage := st\<rparr>)"
  by (simp add: generateAuditReport_def bind_io_def on_storage_def)

lemma generateAuditReport_spec_unparsable:
  "readFile (fileOps opts) (schemaPath opts) (storage w) = (Inr content, st)
     \<Longrightarrow> parse_schema content = Inl e
     \<Longrightarrow> generateAuditReport re opts now w = (Inl e, w\<lparr>storage := st\<rparr>)"
  by (simp add: generateAuditReport_def bind_io_def on_storage_def lift_result_def)

lemma getDir_example: "getDir ''./generated/openapi-schema.json'' = ''./generated''"
  by (simp add: getDir_def)

lemma clear_failing_remove:
  "clearGeneratedDirectory failing_remove_options (new_auditor schema_only_store)
     = (Inr (), (new_auditor schema_only_store)
          \<lparr>console := [Log (emoji_broom @ '' Clearing 1 files from generated directories'')]\<rparr>)"
  by (simp add: clearGeneratedDirectory_def clearGeneratedDirectory_try_def try_catch_def
      bind_io_def return_io_def safeGlob_def on_storage_def console_log_def
      failing_remove_options_def example_options_def mem_ops_def getDir_example
      new_auditor_def schema_only_store_def glob_match_def show_nat.simps digit_def)

text \<open>
  C5 (as stated, refuted). The claim has failures inside the cleanup logged. With a
  \<^verbatim>\<open>removeFile\<close> that throws, \<^verbatim>\<open>clearGeneratedDirectory\<close> returns normally and the console
  holds the line about clearing one file and no error line: the \<^verbatim>\<open>catch\<close> block of the
  cleanup is empty.
\<close>

theorem cleanup_failure_not_logged:
  "the (removeFile (fileOps failing_remove_options)) ''./generated/openapi-schema.json''
       schema_only_store
     = (Inl (IoError ''EACCES: permission denied''), schema_only_store)
   \<and> clearGeneratedDirectory failing_remove_options (new_auditor schema_only_store)
     = (Inr (), (new_auditor schema_only_store)
          \<lparr>console := [Log (emoji_broom @ '' Clearing 1 files from generated directories'')]\<rparr>)"
  using clear_failing_remove
  by (simp add: failing_remove_options_def example_options_def mem_ops_def)

text \<open>
  C5 (amended). For every implementation of the file port:
  \<^item> \<^verbatim>\<open>clearGeneratedDirectory\<close> never throws and writes no error line: failures inside the
    cleanup are dropped silently;
  \<^item> \<^verbatim>\<open>teardown\<close> never throws;
  \<^item> when the log is not empty and its directory cannot be created, or its snapshot file
    cannot be written, \<^verbatim>\<open>teardown\<close> writes that error to the console with
    \<^verbatim>\<open>console.error\<close>, then the completion line, and does nothing else (no report);
  \<^item> when the report is generated and its directory cannot be created, or the report file
    cannot be written, \<^verbatim>\<open>teardown\<close> does the same with that error;
  \<^item> when \<^verbatim>\<open>generateAuditReport\<close> throws, \<^verbatim>\<open>teardown\<close>, its caller, does the same with
    that error and writes no report;
  \<^item> a specification file that cannot be read, or whose content cannot be parsed, makes
    \<^verbatim>\<open>generateAuditReport\<close> throw that error to its caller instead of returning a report.
\<close>

theorem failures_at_the_orchestrator_boundary:
  "fst (clearGeneratedDirectory opts w) = Inr ()
   \<and> filter is_error_line (console (snd (clearGeneratedDirectory opts w)))
       = filter is_error_line (console w)
   \<and> fst (teardown re opts now w) = Inr ()
   \<and> (traffic_log w \<noteq> []
       \<and> mkdir (fileOps opts) (trafficDir opts) (storage w) = (Inl e, st)
       \<longrightarrow> teardown re opts now w =
             (Inr (), (teardown_started w)
                \<lparr>storage := st,
                 console := console (teardown_started w)
                   @ [ErrorLine teardown_failed e, Log teardown_completed]\<rparr>))
   \<and> (traffic_log w \<noteq> []
       \<and> mkdir (fileOps opts) (trafficDir opts) (storage w) = (Inr (), st1)
       \<and> writeFile (fileOps opts) (trafficDir opts @ ''/integration-tests-traffic.json'')
             (TrafficJson (traffic_records w)) st1 = (Inl e, st)
       \<longrightarrow> teardown re opts now w =
             (Inr (), (teardown_started w)
                \<lparr>storage := st,
                 console := console (teardown_started w)
                   @ [ErrorLine teardown_failed e, Log teardown_completed]\<rparr>))
   \<and> (teardown_write_traffic opts (teardown_started w) = (Inr (), w1)
       \<and> generateAuditReport re opts now w1 = (Inr report, w2)
       \<and> mkdir (fileOps opts) (getDir (reportPath opts)) (storage w2) = (Inl e, st)
       \<longrightarrow> teardown re opts now w =
             (Inr (), w2\<lparr>storage := st,
                        console := console w2
                          @ [ErrorLine teardown_failed e, Log teardown_completed]\<rparr>))
   \<and> (teardown_write_traffic opts (teardown_started w) = (Inr (), w1)
       \<and> generateAuditReport re opts now w1 = (Inr report, w2)
       \<and> mkdir (fileOps opts) (getDir (reportPath opts)) (storage w2) = (Inr (), st1)
       \<and> writeFile (fileOps opts) (reportPath opts) (PlainText report) st1 = (Inl e, st)
       \<longrightarrow> teardown re opts now w =
             (Inr (), w2\<lparr>storage := st,
                        console := console w2
                          @ [ErrorLine teardown_failed e, Log teardown_completed]\<rparr>))
   \<and> (teardown_write_traffic opts (teardown_started w) = (Inr (), w1)
       \<and> generateAuditReport re opts now w1 = (Inl e, w2)
       \<longrightarrow> teardown re opts now w =
             (Inr (), w2\<lparr>console := console w2
                          @ [ErrorLine teardown_failed e, Log teardown_completed]\<rparr>))
   \<and> (readFile (fileOps opts) (schemaPath opts) (storage w) = (Inl e, st)
       \<longrightarrow> generateAuditReport re opts now w = (Inl e, w\<lparr>storage := st\<rparr>))
   \<and> (readFile (fileOps opts) (schemaPath opts) (storage w) = (Inr content, st)
       \<and> parse_schema content = Inl e
       \<longrightarrow> generateAuditReport re opts now w = (Inl e, w\<lparr>storage := st\<rparr>))"
  using clearGeneratedDirectory_silent [of opts w]
    teardown_never_throws [of re opts now w]
    teardown_snapshot_mkdir_fails [of w opts e st re now]
    teardown_snapshot_write_fails [of w opts st1 e st re now]
    teardown_report_mkdir_fails [of opts w w1 re now report w2 e st]
    teardown_report_write_fails [of opts w w1 re now report w2 st1 e st]
    teardown_report_fails [of opts w w1 re now e w2]
    generateAuditReport_spec_missing [of opts w e st re now]
    generateAuditReport_spec_unparsable [of opts w content st e re now]
  by blast

subsection \<open>The failures on concrete storages\<close>

lemma traffic_log_recorded_world: "traffic_log recorded_world \<noteq> []"
  using record_exchanges_effect [OF wf_registered_world, of no_json exchanges_a]
  unfolding recorded_world_def
  by (cases "traffic_log (record_exchanges no_json exchanges_a registered_world)")
     (auto simp: exchanges_a_def)

lemma storage_recorded_world: "storage recorded_world = empty_store"
  using record_exchanges_effect [OF wf_registered_world, of no_json exchanges_a]
  unfolding recorded_world_def
  by (simp add: registered_world_def registerPlugin_simps new_auditor_def)

lemma console_recorded_world: "console recorded_world = []"
  using record_exchanges_effect [OF wf_registered_world, of no_json exchanges_a]
  unfolding recorded_world_def
  by (simp add: registered_world_def registerPlugin_simps new_auditor_def)

lemma console_teardown_started_recorded_world:
  "console (teardown_started recorded_world)
     = [Log (emoji_chart @ '' Global teardown: Starting OpenAPI traffic audit...''), Log ''1'']"
proof -
  have "length (traffic_log recorded_world) = 1"
    using record_exchanges_effect [OF wf_registered_world, of no_json exchanges_a]
    unfolding recorded_world_def
    by (simp add: traffic_log_registered_world exchanges_a_def)
  then show ?thesis
    by (simp add: teardown_started_def console_recorded_world show_nat.simps digit_def)
qed

lemma teardown_started_new_auditor:
  "teardown_started (new_auditor st)
     = (new_auditor st)
         \<lparr>console :=
            [Log (emoji_chart @ '' Global teardown: Starting OpenAPI traffic audit...''),
             Log ''0'']\<rparr>"
  by (simp add: teardown_started_def traffic_log_new_auditor console_new_auditor
        show_nat.simps digit_def)

lemma teardown_write_traffic_new_auditor:
  "teardown_write_traffic opts (teardown_started (new_auditor st))
     = (Inr (), teardown_started (new_auditor st))"
  by (simp add: teardown_write_traffic_def traffic_log_teardown_started
        traffic_log_new_auditor)

lemma generateAuditReport_schema_only:
  "generateAuditReport re (flaky_options bad_dirs bad_files) now
     (teardown_started (new_auditor schema_only_store))
     = (Inr (generateEmptyReport now), teardown_started (new_auditor schema_only_store))"
  unfolding teardown_started_new_auditor
  by (simp add: generateAuditReport_def bind_io_def on_storage_def lift_result_def
        return_io_def flaky_options_def flaky_ops_def mem_ops_def example_options_def
        new_auditor_def schema_only_store_def glob_match_def)

lemma generateAuditReport_no_spec:
  "generateAuditReport re example_options now (teardown_started (new_auditor empty_store))
     = (Inl enoent_schema, teardown_started (new_auditor empty_store))"
  unfolding teardown_started_new_auditor
  by (simp add: generateAuditReport_def bind_io_def on_storage_def example_options_def
        mem_ops_def new_auditor_def empty_store_def enoent_schema_def)

theorem failures_at_the_orchestrator_boundary_witness:
  "fst (clearGeneratedDirectory failing_remove_options (new_auditor schema_only_store)) = Inr ()
   \<and> filter is_error_line
        (console (snd (clearGeneratedDirectory failing_remove_options
                         (new_auditor schema_only_store)))) = []
   \<and> traffic_log recorded_world \<noteq> []
   \<and> mkdir (fileOps (flaky_options [''./generated/traffic''] []))
        (trafficDir (flaky_options [''./generated/traffic''] [])) (storage recorded_world)
       = (Inl (IoError ''EACCES: permission denied, mkdir ./generated/traffic''), empty_store)
   \<and> teardown example_regexp (flaky_options [''./generated/traffic''] [])
        ''2026-01-01T00:00:00.000Z'' recorded_world
       = (Inr (), recorded_world
            \<lparr>storage := empty_store,
             console :=
               [Log (emoji_chart @ '' Global teardown: Starting OpenAPI traffic audit...''),
                Log ''1'',
                ErrorLine teardown_failed
                  (IoError ''EACCES: permission denied, mkdir ./generated/traffic''),
                Log teardown_completed]\<rparr>)
   \<and> mkdir (fileOps (flaky_options [] [''./generated/traffic/integration-tests-traffic.json'']))
        (trafficDir (flaky_options [] [''./generated/traffic/integration-tests-traffic.json'']))
        (storage recorded_world)
       = (Inr (), \<lparr>files = [], dirs = [''./generated/traffic'']\<rparr>)
   \<and> writeFile
        (fileOps (flaky_options [] [''./generated/traffic/integration-tests-traffic.json'']))
        (trafficDir (flaky_options [] [''./generated/traffic/integration-tests-traffic.json''])
           @ ''/integration-tests-traffic.json'')
        (TrafficJson (traffic_records recorded_world))
        \<lparr>files = [], dirs = [''./generated/traffic'']\<rparr>
       = (Inl (IoError
            ''EACCES: permission denied, open ./generated/traffic/integration-tests-traffic.json''),
          \<lparr>files = [], dirs = [''./generated/traffic'']\<rparr>)
   \<and> teardown example_regexp
        (flaky_options [] [''./generated/traffic/integration-tests-traffic.json''])
        ''2026-01-01T00:00:00.000Z'' recorded_world
       = (Inr (), recorded_world
            \<lparr>storage := \<lparr>files = [], dirs = [''./generated/traffic'']\<rparr>,
             console :=
               [Log (emoji_chart @ '' Global teardown: Starting OpenAPI traffic audit...''),
                Log ''1'',
                ErrorLine teardown_failed
                  (IoError
            ''EACCES: permission denied, open ./generated/traffic/integration-tests-traffic.json''),
                Log teardown_completed]\<rparr>)
   \<and> generateAuditReport example_regexp (flaky_options [''./generated''] [])
        ''2026-01-01T00:00:00.000Z'' (teardown_started (new_auditor schema_only_store))
       = (Inr (generateEmptyReport ''2026-01-01T00:00:00.000Z''),
          teardown_started (new_auditor schema_only_store))
   \<and> mkdir (fileOps (flaky_options [''./generated''] []))
        (getDir (reportPath (flaky_options [''./generated''] [])))
        (storage (teardown_started
           (new_auditor schema_only_store :: (unit store, unit) world)))
       = (Inl (IoError ''EACCES: permission denied, mkdir ./generated''), schema_only_store)
   \<and> teardown example_regexp (flaky_options [''./generated''] [])
        ''2026-01-01T00:00:00.000Z'' (new_auditor schema_only_store)
       = (Inr (), (new_auditor schema_only_store)
            \<lparr>console :=
               [Log (emoji_chart @ '' Global teardown: Starting OpenAPI traffic audit...''),
                Log ''0'',
                ErrorLine teardown_failed
                  (IoError ''EACCES: permission denied, mkdir ./generated''),
                Log teardown_completed]\<rparr>)
   \<and> mkdir (fileOps (flaky_options [] [''./generated/audit-report.md'']))
        (getDir (reportPath (flaky_options [] [''./generated/audit-report.md''])))
        (storage (teardown_started
           (new_auditor schema_only_store :: (unit store, unit) world)))
       = (Inr (), schema_only_store)
   \<and> writeFile (fileOps (flaky_options [] [''./generated/audit-report.md'']))
        (reportPath (flaky_options [] [''./generated/audit-report.md'']))
        (PlainText (generateEmptyReport ''2026-01-01T00:00:00.000Z'')) schema_only_store
       = (Inl (IoError ''EACCES: permission denied, open ./generated/audit-report.md''),
          schema_only_store)
   \<and> teardown example_regexp (flaky_options [] [''./generated/audit-report.md''])
        ''2026-01-01T00:00:00.000Z'' (new_auditor schema_only_store)
       = (Inr (), (new_auditor schema_only_store)
            \<lparr>console :=
               [Log (emoji_chart @ '' Global teardown: Starting OpenAPI traffic audit...''),
                Log ''0'',
                ErrorLine teardown_failed
                  (IoError ''EACCES: permission denied, open ./generated/audit-report.md''),
                Log teardown_completed]\<rparr>)
   \<and> readFile (fileOps example_options) (schemaPath example_options)
        (storage (new_auditor empty_store :: (unit store, unit) world))
       = (Inl enoent_schema, empty_store)
   \<and> generateAuditReport example_regexp example_options ''2026-01-01T00:00:00.000Z''
        (new_auditor empty_store)
       = (Inl enoent_schema, new_auditor empty_store)
   \<and> teardown example_regexp example_options ''2026-01-01T00:00:00.000Z''
        (new_auditor empty_store)
       = (Inr (), (new_auditor empty_store)
            \<lparr>console :=
               [Log (emoji_chart @ '' Global teardown: Starting OpenAPI traffic audit...''),
                Log ''0'',
                ErrorLine teardown_failed enoent_schema,
                Log teardown_completed]\<rparr>)
   \<and> readFile (fileOps example_options) (schemaPath example_options)
        (storage (new_auditor broken_schema_store :: (unit store, unit) world))
       = (Inr (PlainText ''<html>''), broken_schema_store)
   \<and> parse_schema (PlainText ''<html>'' :: unit doc) = Inl JsonSyntaxError
   \<and> generateAuditReport example_regexp example_options ''2026-01-01T00:00:00.000Z''
        (new_auditor broken_schema_store)
       = (Inl JsonSyntaxError, new_auditor broken_schema_store)"
proof -
  let ?now = "''2026-01-01T00:00:00.000Z''"
  let ?re = example_regexp
  let ?start = "Log (emoji_chart @ '' Global teardown: Starting OpenAPI traffic audit...'')"
  let ?ws = "new_auditor schema_only_store :: (unit store, unit) world"
  let ?we = "new_auditor empty_store :: (unit store, unit) world"
  let ?wb = "new_auditor broken_schema_store :: (unit store, unit) world"
  let ?o1 = "flaky_options [''./generated/traffic''] []"
  let ?o2 = "flaky_options [] [''./generated/traffic/integration-tests-traffic.json'']"
  let ?o3 = "flaky_options [''./generated''] []"
  let ?o4 = "flaky_options [] [''./generated/audit-report.md'']"
  let ?e1 = "IoError ''EACCES: permission denied, mkdir ./generated/traffic''"
  let ?e2 = "IoError
     ''EACCES: permission denied, open ./generated/traffic/integration-tests-traffic.json''"
  let ?e3 = "IoError ''EACCES: permission denied, mkdir ./generated''"
  let ?e4 = "IoError ''EACCES: permission denied, open ./generated/audit-report.md''"
  let ?st2 = "\<lparr>files = [], dirs = [''./generated/traffic'']\<rparr> :: unit store"
  note l = traffic_log_recorded_world
  txt \<open>the cleanup\<close>
  note i0 = failures_at_the_orchestrator_boundary
              [where opts = failing_remove_options and w = ?ws
                 and re = ?re
                 and now = ?now
                 and e = JsonSyntaxError
                 and st = empty_store
                 and ?st1.0 = empty_store
                 and ?w1.0 = ?we
                 and ?w2.0 = ?we
                 and report = "[]"
                 and content = "PlainText []"]
  have c0: "fst (clearGeneratedDirectory failing_remove_options ?ws) = Inr ()"
    using i0 by (elim conjE)
  have c0': "filter is_error_line
               (console (snd (clearGeneratedDirectory failing_remove_options ?ws))) = []"
    using i0 by (elim conjE) (simp add: console_new_auditor)
  txt \<open>the directory of the snapshot\<close>
  have h1: "mkdir (fileOps ?o1) (trafficDir ?o1) (storage recorded_world)
              = (Inl ?e1, empty_store)"
    by (simp add: flaky_options_def flaky_ops_def example_options_def storage_recorded_world)
  note i1 = failures_at_the_orchestrator_boundary
              [where opts = ?o1 and w = recorded_world and re = ?re and now = ?now
                 and e = ?e1 and st = empty_store
                 and ?st1.0 = empty_store
                 and ?w1.0 = ?we
                 and ?w2.0 = ?we
                 and report = "[]"
                 and content = "PlainText []"]
  have "teardown ?re ?o1 ?now recorded_world
          = (Inr (), (teardown_started recorded_world)
               \<lparr>storage := empty_store,
                console := console (teardown_started recorded_world)
                  @ [ErrorLine teardown_failed ?e1, Log teardown_completed]\<rparr>)"
    using i1 l h1 by (elim conjE) blast
  then have c1: "teardown ?re ?o1 ?now recorded_world
       = (Inr (), recorded_world
            \<lparr>storage := empty_store,
             console := [?start, Log ''1'', ErrorLine teardown_failed ?e1,
                         Log teardown_completed]\<rparr>)"
    unfolding console_teardown_started_recorded_world
    by (simp add: teardown_started_def)
  txt \<open>the snapshot file\<close>
  have h2: "mkdir (fileOps ?o2) (trafficDir ?o2) (storage recorded_world) = (Inr (), ?st2)"
    by (simp add: flaky_options_def flaky_ops_def mem_ops_def example_options_def
          storage_recorded_world empty_store_def set_add_def)
  have h2': "writeFile (fileOps ?o2) (trafficDir ?o2 @ ''/integration-tests-traffic.json'')
               (TrafficJson (traffic_records recorded_world)) ?st2 = (Inl ?e2, ?st2)"
    by (simp add: flaky_options_def flaky_ops_def example_options_def)
  note i2 = failures_at_the_orchestrator_boundary
              [where opts = ?o2 and w = recorded_world and re = ?re and now = ?now
                 and e = ?e2 and st = ?st2 and ?st1.0 = ?st2
                 and ?w1.0 = ?we
                 and ?w2.0 = ?we
                 and report = "[]"
                 and content = "PlainText []"]
  have "teardown ?re ?o2 ?now recorded_world
          = (Inr (), (teardown_started recorded_world)
               \<lparr>storage := ?st2,
                console := console (teardown_started recorded_world)
                  @ [ErrorLine teardown_failed ?e2, Log teardown_completed]\<rparr>)"
    using i2 l h2 h2' by (elim conjE) blast
  then have c2: "teardown ?re ?o2 ?now recorded_world
       = (Inr (), recorded_world
            \<lparr>storage := ?st2,
             console := [?start, Log ''1'', ErrorLine teardown_failed ?e2,
                         Log teardown_completed]\<rparr>)"
    unfolding console_teardown_started_recorded_world
    by (simp add: teardown_started_def)
  txt \<open>the directory of the report\<close>
  note t = teardown_write_traffic_new_auditor
  note g3 = generateAuditReport_schema_only [of ?re "[''./generated'']" "[]" ?now]
  have h3: "mkdir (fileOps ?o3) (getDir (reportPath ?o3)) (storage (teardown_started ?ws))
              = (Inl ?e3, schema_only_store)"
    by (simp add: flaky_options_def flaky_ops_def example_options_def getDir_def
          storage_teardown_started new_auditor_def)
  note i3 = failures_at_the_orchestrator_boundary
              [where opts = ?o3 and w = ?ws and re = ?re and now = ?now and e = ?e3
                 and st = schema_only_store and ?w1.0 = "teardown_started ?ws"
                 and ?w2.0 = "teardown_started ?ws"
                 and report = "generateEmptyReport ?now"
                 and ?st1.0 = empty_store
                 and content = "PlainText []"]
  have "teardown ?re ?o3 ?now ?ws
          = (Inr (), (teardown_started ?ws)
               \<lparr>storage := schema_only_store,
                console := console (teardown_started ?ws)
                  @ [ErrorLine teardown_failed ?e3, Log teardown_completed]\<rparr>)"
    using i3 t [of ?o3 schema_only_store] g3 h3 by (elim conjE) blast
  then have c3: "teardown ?re ?o3 ?now ?ws
       = (Inr (), ?ws
            \<lparr>console := [?start, Log ''0'', ErrorLine teardown_failed ?e3,
                         Log teardown_completed]\<rparr>)"
    unfolding teardown_started_new_auditor by (simp add: new_auditor_def)
  txt \<open>the report file\<close>
  note g4 = generateAuditReport_schema_only [of ?re "[]" "[''./generated/audit-report.md'']" ?now]
  have h4: "mkdir (fileOps ?o4) (getDir (reportPath ?o4)) (storage (teardown_started ?ws))
              = (Inr (), schema_only_store)"
    by (simp add: flaky_options_def flaky_ops_def mem_ops_def example_options_def getDir_def
          storage_teardown_started new_auditor_def schema_only_store_def set_add_def)
  have h4': "writeFile (fileOps ?o4) (reportPath ?o4)
               (PlainText (generateEmptyReport ?now)) schema_only_store
              = (Inl ?e4, schema_only_store)"
    by (simp add: flaky_options_def flaky_ops_def example_options_def)
  note i4 = failures_at_the_orchestrator_boundary
              [where opts = ?o4 and w = ?ws and re = ?re and now = ?now and e = ?e4
                 and st = schema_only_store and ?st1.0 = schema_only_store
                 and ?w1.0 = "teardown_started ?ws" and ?w2.0 = "teardown_started ?ws"
                 and report = "generateEmptyReport ?now"
                 and content = "PlainText []"]
  have "teardown ?re ?o4 ?now ?ws
          = (Inr (), (teardown_started ?ws)
               \<lparr>storage := schema_only_store,
                console := console (teardown_started ?ws)
                  @ [ErrorLine teardown_failed ?e4, Log teardown_completed]\<rparr>)"
    using i4 t [of ?o4 schema_only_store] g4 h4 h4' by (elim conjE) blast
  then have c4: "teardown ?re ?o4 ?now ?ws
       = (Inr (), ?ws
            \<lparr>console := [?start, Log ''0'', ErrorLine teardown_failed ?e4,
                         Log teardown_completed]\<rparr>)"
    unfolding teardown_started_new_auditor by (simp add: new_auditor_def)
  txt \<open>the specification\<close>
  have r5: "readFile (fileOps example_options) (schemaPath example_options) (storage ?we)
              = (Inl enoent_schema, empty_store)"
    by (simp add: example_options_def mem_ops_def new_auditor_def empty_store_def
        enoent_schema_def)
  note i5 = failures_at_the_orchestrator_boundary
              [where opts = example_options and w = ?we and re = ?re and now = ?now
                 and e = enoent_schema and st = empty_store
                 and ?w1.0 = "teardown_started ?we" and ?w2.0 = "teardown_started ?we"
                 and ?st1.0 = empty_store
                 and report = "[]"
                 and content = "PlainText []"]
  have "generateAuditReport ?re example_options ?now ?we
          = (Inl enoent_schema, ?we\<lparr>storage := empty_store\<rparr>)"
    using i5 r5 by (elim conjE) blast
  then have c5: "generateAuditReport ?re example_options ?now ?we = (Inl enoent_schema, ?we)"
    by (simp add: new_auditor_def)
  have "teardown ?re example_options ?now ?we
          = (Inr (), (teardown_started ?we)
               \<lparr>console := console (teardown_started ?we)
                  @ [ErrorLine teardown_failed enoent_schema, Log teardown_completed]\<rparr>)"
    using i5 t [of example_options empty_store] generateAuditReport_no_spec [of ?re ?now]
    by (elim conjE) blast
  then have c5': "teardown ?re example_options ?now ?we
       = (Inr (), ?we
            \<lparr>console := [?start, Log ''0'', ErrorLine teardown_failed enoent_schema,
                         Log teardown_completed]\<rparr>)"
    unfolding teardown_started_new_auditor by simp
  have r6: "readFile (fileOps example_options) (schemaPath example_options) (storage ?wb)
              = (Inr (PlainText ''<html>''), broken_schema_store)"
    by (simp add: example_options_def mem_ops_def new_auditor_def broken_schema_store_def)
  have p6: "parse_schema (PlainText ''<html>'' :: unit doc) = Inl JsonSyntaxError"
    by simp
  note i6 = failures_at_the_orchestrator_boundary
              [where opts = example_options and w = ?wb and re = ?re and now = ?now
                 and e = JsonSyntaxError and st = broken_schema_store
                 and content = "PlainText ''<html>''"
                 and ?st1.0 = empty_store
                 and ?w1.0 = ?we
                 and ?w2.0 = ?we
                 and report = "[]"]
  have "generateAuditReport ?re example_options ?now ?wb
          = (Inl JsonSyntaxError, ?wb\<lparr>storage := broken_schema_store\<rparr>)"
    using i6 r6 p6 by (elim conjE) blast
  then have c6: "generateAuditReport ?re example_options ?now ?wb = (Inl JsonSyntaxError, ?wb)"
    by (simp add: new_auditor_def)
  show ?thesis
    using c0 c0' l h1 c1 h2 h2' c2 g3 h3 c3 h4 h4' c4 r5 c5 c5' r6 p6 c6
    by (intro conjI)
qed

end
